theory Spec2Isabelle
  imports Complex_Main "HOL-Library.Option_ord"
begin

section \<open>Task store (src/queue\_db.py)\<close>

text \<open>
  One row of the \<open>tasks\<close> table, column by column as in \<open>SCHEMA\<close>. Nullable columns are
  options, \<open>REAL\<close> timestamps are real numbers, \<open>status\<close> is the \<open>TEXT\<close> the code writes.
  The table is the list of its rows in rowid order.
\<close>

record task =
  task_id :: int
  file_path :: string
  theme :: "string option"
  intent_json :: "string option"
  job_id :: "int option"
  status :: string
  attempts :: int
  last_error :: "string option"
  leased_at :: "real option"
  tenant_id :: "string option"
  created_at :: real
  updated_at :: real

text \<open>SQL \<open>col = ?\<close>: true only when both sides are non-NULL and equal.\<close>

definition sql_eq :: "'a option \<Rightarrow> 'a option \<Rightarrow> bool" where
  "sql_eq col param = (case (col, param) of (Some a, Some b) \<Rightarrow> a = b | _ \<Rightarrow> False)"

text \<open>SQL \<open>col < ?\<close> on a nullable column.\<close>

definition sql_lt :: "real option \<Rightarrow> real \<Rightarrow> bool" where
  "sql_lt col param = (case col of Some a \<Rightarrow> a < param | None \<Rightarrow> False)"

text \<open>\<open>(tenant_id IS NULL AND ? IS NULL) OR tenant_id = ?\<close> of \<open>complete\<close> and \<open>flag\<close>.\<close>

definition owner_matches :: "string option \<Rightarrow> task \<Rightarrow> bool" where
  "owner_matches tenant r = ((tenant_id r = None \<and> tenant = None) \<or> sql_eq (tenant_id r) tenant)"

definition complete :: "real \<Rightarrow> int \<Rightarrow> string option \<Rightarrow> task list \<Rightarrow> task list" where
  "complete now tid tenant tasks =
     map (\<lambda>r. if task_id r = tid \<and> owner_matches tenant r
               then r\<lparr>status := ''done'', updated_at := now\<rparr> else r) tasks"

definition flag :: "real \<Rightarrow> int \<Rightarrow> string \<Rightarrow> string option \<Rightarrow> task list \<Rightarrow> task list" where
  "flag now tid err tenant tasks =
     map (\<lambda>r. if task_id r = tid \<and> owner_matches tenant r
               then r\<lparr>status := ''flagged'', last_error := Some err, updated_at := now\<rparr> else r) tasks"

definition reset_to_pending :: "real \<Rightarrow> int \<Rightarrow> task list \<Rightarrow> task list" where
  "reset_to_pending now tid tasks =
     map (\<lambda>r. if task_id r = tid
               then r\<lparr>status := ''pending'', last_error := None, updated_at := now\<rparr> else r) tasks"

text \<open>
  The tenant clause of \<open>lease_one\<close>: no clause without a tenant filter, otherwise
  \<open>tenant_id = ?\<close>, widened by \<open>OR tenant_id IS NULL\<close> when \<open>allow_unscoped\<close>.
\<close>

definition tenant_clause :: "string option \<Rightarrow> bool \<Rightarrow> task \<Rightarrow> bool" where
  "tenant_clause tenant allow_unscoped r =
     (case tenant of
        None \<Rightarrow> True
      | Some t \<Rightarrow> if allow_unscoped then (tenant_id r = Some t \<or> tenant_id r = None)
                  else tenant_id r = Some t)"

text \<open>
  \<open>ORDER BY key LIMIT 1\<close>: the first row, in table order, whose key is least
  (NULL keys sort first, as in SQLite and in the order on options).
\<close>

fun order_by_limit1 :: "('a \<Rightarrow> 'k::linorder) \<Rightarrow> 'a list \<Rightarrow> 'a option" where
  "order_by_limit1 key [] = None"
| "order_by_limit1 key (x # xs) =
     (case order_by_limit1 key xs of
        None \<Rightarrow> Some x
      | Some y \<Rightarrow> if key x \<le> key y then Some x else Some y)"

definition pending_candidate :: "string option \<Rightarrow> bool \<Rightarrow> task list \<Rightarrow> task option" where
  "pending_candidate tenant allow_unscoped tasks =
     order_by_limit1 created_at
       (filter (\<lambda>r. status r = ''pending'' \<and> tenant_clause tenant allow_unscoped r) tasks)"

text \<open>The conditional \<open>UPDATE ... WHERE id = (SELECT id ... LIMIT 1)\<close>.\<close>

definition claim_update :: "real \<Rightarrow> string option \<Rightarrow> bool \<Rightarrow> task list \<Rightarrow> task list" where
  "claim_update now tenant allow_unscoped tasks =
     (case pending_candidate tenant allow_unscoped tasks of
        None \<Rightarrow> tasks
      | Some c \<Rightarrow>
          map (\<lambda>r. if task_id r = task_id c
                    then r\<lparr>status := ''leased'', leased_at := Some now,
                           attempts := attempts r + 1, updated_at := now\<rparr>
                    else r) tasks)"

text \<open>\<open>SELECT * FROM tasks WHERE status='leased' AND leased_at = ?\<close>, \<open>fetchone()\<close>.\<close>

definition read_back :: "real \<Rightarrow> task list \<Rightarrow> task option" where
  "read_back now tasks = find (\<lambda>r. status r = ''leased'' \<and> sql_eq (leased_at r) (Some now)) tasks"

text \<open>The scan for an expired lease, \<open>ORDER BY leased_at LIMIT 1\<close>.\<close>

definition select_expired :: "real \<Rightarrow> int \<Rightarrow> string option \<Rightarrow> bool \<Rightarrow> task list \<Rightarrow> task option" where
  "select_expired now visibility_timeout_sec tenant allow_unscoped tasks =
     order_by_limit1 leased_at
       (filter (\<lambda>r. status r = ''leased'' \<and> sql_lt (leased_at r) (now - real_of_int visibility_timeout_sec)
                    \<and> tenant_clause tenant allow_unscoped r) tasks)"

definition recycle :: "real \<Rightarrow> int \<Rightarrow> task list \<Rightarrow> task list" where
  "recycle now tid tasks =
     map (\<lambda>r. if task_id r = tid then r\<lparr>status := ''pending'', updated_at := now\<rparr> else r) tasks"

text \<open>
  What one call of \<open>lease_one\<close> leaves behind: the row it returns, the table, and how
  many times the function re-invoked itself on the way (line 180 of the source).
\<close>

record lease_result =
  leased_row :: "task option"
  store :: "task list"
  self_calls :: nat

text \<open>
  \<open>lease_one\<close>. Every invocation reads \<open>time.time()\<close> once; \<open>clock k\<close> is the reading of
  the \<open>k\<close>-th invocation.
\<close>

function lease_one :: "(nat \<Rightarrow> real) \<Rightarrow> nat \<Rightarrow> int \<Rightarrow> string option \<Rightarrow> bool \<Rightarrow> task list \<Rightarrow> lease_result" where
  "lease_one clock k visibility_timeout_sec tenant allow_unscoped tasks =
     (let now = clock k;
          tasks1 = claim_update now tenant allow_unscoped tasks
      in case read_back now tasks1 of
           Some row \<Rightarrow> \<lparr>leased_row = Some row, store = tasks1, self_calls = 0\<rparr>
         | None \<Rightarrow>
            (case select_expired now visibility_timeout_sec tenant allow_unscoped tasks1 of
               None \<Rightarrow> \<lparr>leased_row = None, store = tasks1, self_calls = 0\<rparr>
             | Some expired \<Rightarrow>
                 (let res = lease_one clock (Suc k) visibility_timeout_sec tenant allow_unscoped
                              (recycle now (task_id expired) tasks1)
                  in res\<lparr>self_calls := Suc (self_calls res)\<rparr>)))"
  by pat_completeness auto

text \<open>How many rows differ between two snapshots of the table.\<close>

definition rows_changed :: "task list \<Rightarrow> task list \<Rightarrow> nat" where
  "rows_changed old new = length (filter (\<lambda>(a, b). a \<noteq> b) (zip old new))"

subsection \<open>Example rows\<close>

definition held_row :: task where
  "held_row = \<lparr>task_id = 1, file_path = ''held.txt'', theme = Some ''demo'', intent_json = None,
     job_id = None, status = ''leased'', attempts = 1, last_error = None,
     leased_at = Some 100, tenant_id = Some ''tenant-b'', created_at = 10, updated_at = 100\<rparr>"

definition fresh_row :: task where
  "fresh_row = \<lparr>task_id = 2, file_path = ''fresh.txt'', theme = Some ''demo'', intent_json = None,
     job_id = None, status = ''pending'', attempts = 0, last_error = None,
     leased_at = None, tenant_id = Some ''tenant-a'', created_at = 50, updated_at = 50\<rparr>"

definition stale_row :: task where
  "stale_row = \<lparr>task_id = 7, file_path = ''stale.txt'', theme = None, intent_json = None,
     job_id = None, status = ''leased'', attempts = 1, last_error = None,
     leased_at = Some 10, tenant_id = None, created_at = 5, updated_at = 10\<rparr>"

definition done_row :: task where
  "done_row = \<lparr>task_id = 3, file_path = ''done.txt'', theme = Some ''demo'',
     intent_json = Some ''{}'', job_id = Some 4, status = ''done'', attempts = 2,
     last_error = Some ''old'', leased_at = Some 60, tenant_id = Some ''tenant-b'',
     created_at = 20, updated_at = 70\<rparr>"

definition later_row :: task where
  "later_row = \<lparr>task_id = 5, file_path = ''later.txt'', theme = Some ''demo'', intent_json = None,
     job_id = None, status = ''pending'', attempts = 0, last_error = None,
     leased_at = None, tenant_id = Some ''tenant-a'', created_at = 60, updated_at = 60\<rparr>"

definition oldest_row :: task where
  "oldest_row = \<lparr>task_id = 8, file_path = ''oldest.txt'', theme = None, intent_json = None,
     job_id = None, status = ''leased'', attempts = 1, last_error = None,
     leased_at = Some 5, tenant_id = Some ''tenant-a'', created_at = 3, updated_at = 5\<rparr>"

definition recent_row :: task where
  "recent_row = \<lparr>task_id = 9, file_path = ''recent.txt'', theme = None, intent_json = None,
     job_id = None, status = ''leased'', attempts = 1, last_error = None,
     leased_at = Some 900, tenant_id = Some ''tenant-a'', created_at = 4, updated_at = 900\<rparr>"

definition later_lease :: task where
  "later_lease = \<lparr>task_id = 6, file_path = ''later-lease.txt'', theme = None, intent_json = None,
     job_id = None, status = ''leased'', attempts = 2, last_error = None,
     leased_at = Some 40, tenant_id = Some ''tenant-a'', created_at = 2, updated_at = 40\<rparr>"

section \<open>Extraction quality and OCR escalation (src/text\_extraction.py)\<close>

text \<open>
  Python's \<open>str\<close> methods \<open>isprintable\<close>, \<open>isalpha\<close>, \<open>isdigit\<close> and the whitespace that
  \<open>strip\<close> removes are tables of the Unicode database, not code of the repository: the
  model takes them as a parameter, over any character type.
\<close>

record 'c chartab =
  isprintable :: "'c \<Rightarrow> bool"
  isalpha :: "'c \<Rightarrow> bool"
  isdigit :: "'c \<Rightarrow> bool"
  isspace :: "'c \<Rightarrow> bool"

text \<open>
  \<open>_quality\<close>: the score and the number of printable characters. Python's floats are
  read as real numbers; \<open>len(set(printable))\<close> is the number of distinct characters.
\<close>

definition quality :: "'c chartab \<Rightarrow> 'c list \<Rightarrow> real \<times> nat" where
  "quality tab text =
     (if text = [] then (0, 0)
      else
        let printable = filter (isprintable tab) text;
            length' = length printable
        in if length' = 0 then (0, 0)
           else
             let alpha = length (filter (isalpha tab) printable);
                 digit = length (filter (isdigit tab) printable);
                 printable_ratio = real length' / real (max (length text) 1);
                 alpha_ratio = real alpha / real length';
                 density = real (alpha + digit) / real length';
                 unique = real (length (remdups printable)) / real length';
                 score = alpha_ratio * 0.4 + density * 0.3 + printable_ratio * 0.2
                           + min unique 0.5 * 0.1
             in (score, length'))"

text \<open>\<open>str.strip()\<close>: leading and trailing whitespace removed.\<close>

definition strip :: "'c chartab \<Rightarrow> 'c list \<Rightarrow> 'c list" where
  "strip tab s = rev (dropWhile (isspace tab) (rev (dropWhile (isspace tab) s)))"

datatype py_exception = Exception string

text \<open>
  The settings \<open>_ocr_image\<close> reads, and what its collaborators do on this image: the
  vision-language backend (called once up front when it is the configured backend, and
  once more on escalation), the fast engine, and the raw read of the last resort. Each
  either raises or returns.
\<close>

record ocr_settings =
  ocr_enabled :: bool
  ocr_backend :: string

record 'c ocr_env =
  hunyuan_first :: "py_exception + 'c list"
  tesseract :: "py_exception + 'c list"
  hunyuan_escalation :: "py_exception + 'c list"
  read_text :: "py_exception + 'c list"

text \<open>
  \<open>_ocr_image\<close> returns \<open>(text, backend_name, note)\<close> or raises; the first component of
  the model's result lists the OCR engines it invoked, in order.
\<close>

definition ocr_image ::
  "'c chartab \<Rightarrow> ocr_settings \<Rightarrow> 'c ocr_env
     \<Rightarrow> string list \<times> (py_exception + 'c list \<times> string \<times> string option)" where
  "ocr_image tab settings env =
     (let vlm = (ocr_enabled settings \<and> ocr_backend settings = ''hunyuan'');
          first = (if vlm then Some (hunyuan_first env) else None);
          calls0 = (if vlm then [''hunyuan''] else [])
      in case first of
           Some (Inr t) \<Rightarrow> (calls0, Inr (t, ''hunyuan'', None))
         | _ \<Rightarrow>
            (case tesseract env of
               Inl _ \<Rightarrow>
                 (calls0 @ [''tesseract''],
                  case read_text env of
                    Inl e \<Rightarrow> Inl e
                  | Inr raw \<Rightarrow> Inr (raw, ''none'', Some ''pytesseract failure''))
             | Inr text \<Rightarrow>
                 (let (score, length') = quality tab text
                  in if score < 0.25 \<or> length' < 30
                     then
                       if vlm
                       then
                         (case hunyuan_escalation env of
                            Inr hy_text \<Rightarrow>
                              if strip tab hy_text \<noteq> [] \<and> fst (quality tab hy_text) \<ge> score
                              then (calls0 @ [''tesseract'', ''hunyuan''],
                                    Inr (hy_text, ''hunyuan'',
                                         Some ''Escalated to Hunyuan (low tesseract quality)''))
                              else (calls0 @ [''tesseract'', ''hunyuan''],
                                    Inr (text, ''tesseract'', Some ''Low OCR quality (tesseract)''))
                          | Inl _ \<Rightarrow>
                              (calls0 @ [''tesseract'', ''hunyuan''],
                               Inr (text, ''tesseract'', Some ''Low OCR quality (tesseract)'')))
                       else (calls0 @ [''tesseract''],
                             Inr (text, ''tesseract'', Some ''Low OCR quality (tesseract)''))
                     else (calls0 @ [''tesseract''], Inr (text, ''tesseract'', None)))))"

subsection \<open>An ASCII character table and example inputs\<close>

definition ascii_tab :: "char chartab" where
  "ascii_tab = \<lparr>
     isprintable = (\<lambda>c. c \<in> set ''abcdefghijklmnopqrstuvwxyzABCDEFGHIJKLMNOPQRSTUVWXYZ0123456789 .,;:!?-#~''),
     isalpha = (\<lambda>c. c \<in> set ''abcdefghijklmnopqrstuvwxyzABCDEFGHIJKLMNOPQRSTUVWXYZ''),
     isdigit = (\<lambda>c. c \<in> set ''0123456789''),
     isspace = (\<lambda>c. c = CHR '' '' \<or> c = CHR 0x0A \<or> c = CHR 0x09)\<rparr>"

definition hunyuan_settings :: ocr_settings where
  "hunyuan_settings = \<lparr>ocr_enabled = True, ocr_backend = ''hunyuan''\<rparr>"

definition garbled_scan :: "char ocr_env" where
  "garbled_scan = \<lparr>
     hunyuan_first = Inl (Exception ''timeout''),
     tesseract = Inr ''#~ ~#'',
     hunyuan_escalation = Inr ''Treaty 8'',
     read_text = Inr ''''\<rparr>"

section \<open>Repetition cleanup of OCR output (src/hunyuan\_ocr.py)\<close>

text \<open>
  First pass, \<open>re.sub(r'(.)\1{15,}', r'\1\1\1', text)\<close>: scanning from the left, a
  character other than a newline (\<open>.\<close> does not match it) followed by at least 15 copies
  of itself is replaced, together with all the copies that follow, by three copies; the
  scan goes on after the run. Elsewhere the character is kept and the scan moves on by one.
\<close>

function collapse_runs :: "string \<Rightarrow> string" where
  "collapse_runs [] = []"
| "collapse_runs (c # cs) =
     (if c \<noteq> CHR 0x0A \<and> 15 \<le> length (takeWhile (\<lambda>x. x = c) cs)
      then c # c # c # collapse_runs (dropWhile (\<lambda>x. x = c) cs)
      else c # collapse_runs cs)"
  by pat_completeness auto
termination
proof (relation "measure length", goal_cases)
  case 1
  show ?case by simp
next
  case (2 c cs)
  have "length (dropWhile (\<lambda>x. x = c) cs) \<le> length cs"
    by (rule length_dropWhile_le)
  then show ?case by simp
next
  case (3 c cs)
  show ?case by simp
qed

text \<open>
  The inner \<open>while\<close> loop: \<open>i\<close> steps down by \<open>len\<close> from \<open>n - len\<close> while the slice
  \<open>text[i : i + len]\<close> equals the candidate; the result is the count. The loop is entered
  with \<open>len \<ge> 2\<close> only; the guard \<open>0 < len\<close> makes the model total.
\<close>

function count_repeats :: "string \<Rightarrow> string \<Rightarrow> nat \<Rightarrow> int \<Rightarrow> nat \<Rightarrow> nat" where
  "count_repeats text candidate len i count =
     (if 0 < len \<and> 0 \<le> i \<and> take len (drop (nat i) text) = candidate
      then count_repeats text candidate len (i - int len) (count + 1)
      else count)"
  by pat_completeness auto
termination
  by (relation "measure (\<lambda>(text, candidate, len, i, count). nat (i + 1))") auto

declare count_repeats.simps [simp del]

text \<open>The \<open>for length in range(2, n // 10 + 1)\<close> loop with its early return.\<close>

fun trim_loop :: "string \<Rightarrow> nat list \<Rightarrow> string" where
  "trim_loop text [] = text"
| "trim_loop text (len # lens) =
     (let n = length text;
          candidate = drop (n - len) text;
          count = count_repeats text candidate len (int n - int len) 0
      in if 5 \<le> count then take (n - len * (count - 1)) text
         else trim_loop text lens)"

text \<open>The second pass as a whole, on the text the first pass produced.\<close>

definition trim_repeated_phrase :: "string \<Rightarrow> string" where
  "trim_repeated_phrase text =
     (let n = length text
      in if n < 1000 then text else trim_loop text [2..<n div 10 + 1])"

definition clean_repeated_substrings :: "string \<Rightarrow> string" where
  "clean_repeated_substrings text = trim_repeated_phrase (collapse_runs text)"

subsection \<open>Example input\<close>

text \<open>1000 characters of filler, then \<open>xxab\<close> five times, then \<open>ab\<close> four times.\<close>

definition filler :: string where
  "filler = concat (replicate 500 ''cd'')"

definition degenerate_tail :: string where
  "degenerate_tail = filler @ ''xxabxxabxxabxxabxxababababab''"

section \<open>Point-in-AOI membership (src/geo\_context.py, src/geo\_filter.py)\<close>

text \<open>
  A ring is a list of \<open>[lon, lat]\<close> pairs; coordinates are real numbers in the model. The
  edge test divides by \<open>y2 - y1 + 1e-12\<close>, which Python refuses when it is zero.
\<close>

type_synonym point = "real \<times> real"
type_synonym ring = "point list"

definition edge_toggles :: "real \<Rightarrow> real \<Rightarrow> point \<Rightarrow> point \<Rightarrow> py_exception + bool" where
  "edge_toggles lat lon p1 p2 =
     (let (x1, y1) = p1; (x2, y2) = p2
      in if (y1 > lat) \<noteq> (y2 > lat)
         then if y2 - y1 + 1 / 10 ^ 12 = 0
              then Inl (Exception ''ZeroDivisionError'')
              else Inr (lon < (x2 - x1) * (lat - y1) / (y2 - y1 + 1 / 10 ^ 12) + x1)
         else Inr False)"

text \<open>The loop \<open>for i in range(n)\<close> of \<open>_point_in_ring\<close>, carrying \<open>inside\<close>.\<close>

fun ring_loop :: "real \<Rightarrow> real \<Rightarrow> ring \<Rightarrow> nat list \<Rightarrow> bool \<Rightarrow> py_exception + bool" where
  "ring_loop lat lon ring [] inside = Inr inside"
| "ring_loop lat lon ring (i # rest) inside =
     (case edge_toggles lat lon (ring ! i) (ring ! ((i + 1) mod length ring)) of
        Inl e \<Rightarrow> Inl e
      | Inr toggles \<Rightarrow> ring_loop lat lon ring rest (if toggles then \<not> inside else inside))"

definition point_in_ring :: "real \<Rightarrow> real \<Rightarrow> ring \<Rightarrow> py_exception + bool" where
  "point_in_ring lat lon ring =
     (let n = length ring
      in if n < 3 then Inr False else ring_loop lat lon ring [0..<n] False)"

text \<open>
  The geometry of a GeoJSON feature: a polygon is a list of rings (the exterior first,
  then the holes), a multi-polygon a list of polygons; any other type is named only.
  A feature without geometry, type or coordinates is \<open>None\<close>.
\<close>

datatype geometry = Polygon "ring list" | MultiPolygon "ring list list" | OtherGeometry string

text \<open>\<open>geo_context._point_in_feature\<close>, the test \<open>build_geo_context\<close> uses for geo tags.\<close>

fun multipolygon_loop :: "real \<Rightarrow> real \<Rightarrow> ring list list \<Rightarrow> py_exception + bool" where
  "multipolygon_loop lat lon [] = Inr False"
| "multipolygon_loop lat lon (poly # rest) =
     (case poly of
        [] \<Rightarrow> multipolygon_loop lat lon rest
      | ring # _ \<Rightarrow>
          (case point_in_ring lat lon ring of
             Inl e \<Rightarrow> Inl e
           | Inr True \<Rightarrow> Inr True
           | Inr False \<Rightarrow> multipolygon_loop lat lon rest))"

definition point_in_feature :: "real \<Rightarrow> real \<Rightarrow> geometry option \<Rightarrow> py_exception + bool" where
  "point_in_feature lat lon feature =
     (case feature of
        None \<Rightarrow> Inr False
      | Some (Polygon coords) \<Rightarrow>
          point_in_ring lat lon (case coords of [] \<Rightarrow> [] | ring # _ \<Rightarrow> ring)
      | Some (MultiPolygon coords) \<Rightarrow> multipolygon_loop lat lon coords
      | Some (OtherGeometry _) \<Rightarrow> Inr False)"

text \<open>\<open>geo_filter._point_in_polygon\<close>, the same test in the spatial search filter.\<close>

fun holes_loop :: "real \<Rightarrow> real \<Rightarrow> ring list \<Rightarrow> py_exception + bool" where
  "holes_loop lat lon [] = Inr True"
| "holes_loop lat lon (hole # rest) =
     (case point_in_ring lat lon hole of
        Inl e \<Rightarrow> Inl e
      | Inr True \<Rightarrow> Inr False
      | Inr False \<Rightarrow> holes_loop lat lon rest)"

definition point_in_polygon :: "real \<Rightarrow> real \<Rightarrow> ring list \<Rightarrow> py_exception + bool" where
  "point_in_polygon lat lon polygon_coords =
     (case polygon_coords of
        [] \<Rightarrow> Inr False
      | outer_ring # holes \<Rightarrow>
          (case point_in_ring lat lon outer_ring of
             Inl e \<Rightarrow> Inl e
           | Inr False \<Rightarrow> Inr False
           | Inr True \<Rightarrow> holes_loop lat lon holes))"

subsection \<open>Example: a square with a square hole\<close>

definition square_ring :: ring where
  "square_ring = [(0, 0), (0, 10), (10, 10), (10, 0), (0, 0)]"

definition hole_ring :: ring where
  "hole_ring = [(4, 4), (4, 6), (6, 6), (6, 4), (4, 4)]"

section \<open>Webhook delivery (src/worker.py, \_send\_callback)\<close>

text \<open>
  The payload is a dict of integers, strings and \<open>None\<close>, kept in insertion order.
  \<open>json.dumps\<close> writes it as \<open>{\<close> items \<open>}\<close> with the item separator between items and the
  key separator between a key and its value. How a string becomes a quoted, escaped JSON
  literal is the library's business and a parameter of the model; integers are written in
  decimal.
\<close>

datatype json = JNull | JInt int | JStr string

fun decimal_nat :: "nat \<Rightarrow> string" where
  "decimal_nat n =
     (if n < 10 then [''0123456789'' ! n]
      else decimal_nat (n div 10) @ [''0123456789'' ! (n mod 10)])"

declare decimal_nat.simps [simp del]

definition decimal :: "int \<Rightarrow> string" where
  "decimal i = (if i < 0 then ''-'' @ decimal_nat (nat (- i)) else decimal_nat (nat i))"

definition dumps_value :: "(string \<Rightarrow> string) \<Rightarrow> json \<Rightarrow> string" where
  "dumps_value encode_str v =
     (case v of JNull \<Rightarrow> ''null'' | JInt i \<Rightarrow> decimal i | JStr s \<Rightarrow> encode_str s)"

text \<open>\<open>sep.join(items)\<close>.\<close>

fun join :: "string \<Rightarrow> string list \<Rightarrow> string" where
  "join sep [] = []"
| "join sep [x] = x"
| "join sep (x # y # rest) = x @ sep @ join sep (y # rest)"

definition json_dumps ::
  "(string \<Rightarrow> string) \<Rightarrow> string \<Rightarrow> string \<Rightarrow> (string \<times> json) list \<Rightarrow> string" where
  "json_dumps encode_str item_separator key_separator obj =
     ''{'' @ join item_separator
              (map (\<lambda>(k, v). encode_str k @ key_separator @ dumps_value encode_str v) obj)
          @ ''}''"

definition opt_json :: "string option \<Rightarrow> json" where
  "opt_json v = (case v of None \<Rightarrow> JNull | Some s \<Rightarrow> JStr s)"

text \<open>The entries of the inferred metadata that the payload reads.\<close>

record callback_metadata =
  md_doc_type :: "string option"
  md_inferred_date :: "string option"
  md_title :: "string option"
  md_doc_id :: "string option"

definition metadata_get ::
  "callback_metadata option \<Rightarrow> (callback_metadata \<Rightarrow> string option) \<Rightarrow> json" where
  "metadata_get metadata field = (case metadata of None \<Rightarrow> JNull | Some m \<Rightarrow> opt_json (field m))"

text \<open>\<open>error_summary or error\<close>: the summary unless it is \<open>None\<close> or empty.\<close>

definition summary_or_error :: "string option \<Rightarrow> string option \<Rightarrow> string option" where
  "summary_or_error error_summary error =
     (case error_summary of
        None \<Rightarrow> error
      | Some s \<Rightarrow> if s = [] then error else Some s)"

definition callback_payload ::
  "string \<Rightarrow> int \<Rightarrow> int \<Rightarrow> string option \<Rightarrow> string \<Rightarrow> string \<Rightarrow> string option
     \<Rightarrow> callback_metadata option \<Rightarrow> string option \<Rightarrow> (string \<times> json) list" where
  "callback_payload timestamp job task thm path stat error metadata error_summary =
     [(''job_id'', JInt job),
      (''task_id'', JInt task),
      (''status'', JStr stat),
      (''theme'', opt_json thm),
      (''file_path'', JStr path),
      (''error'', opt_json error),
      (''error_summary'', opt_json (summary_or_error error_summary error)),
      (''timestamp'', JStr timestamp),
      (''doc_type'', metadata_get metadata md_doc_type),
      (''inferred_date'', metadata_get metadata md_inferred_date),
      (''title'', metadata_get metadata md_title),
      (''doc_id'', metadata_get metadata md_doc_id)]"

text \<open>
  The request \<open>_send_callback\<close> hands to \<open>requests.post(url, json=payload, headers=headers)\<close>.
  The signature is computed over \<open>json.dumps(payload, separators=(",", ":"))\<close>; the body
  that \<open>requests\<close> transmits for \<open>json=payload\<close> is its own \<open>json.dumps(payload)\<close>, with the
  default separators \<open>", "\<close> and \<open>": "\<close>. HMAC-SHA256 with its hex digest is a parameter.
  Nothing is sent when the job is missing or has no callback URL.
\<close>

record http_request =
  req_url :: string
  req_headers :: "(string \<times> string) list"
  req_body :: string

definition signed_body :: "(string \<Rightarrow> string) \<Rightarrow> (string \<times> json) list \<Rightarrow> string" where
  "signed_body encode_str payload = json_dumps encode_str '','' '':'' payload"

definition transmitted_body :: "(string \<Rightarrow> string) \<Rightarrow> (string \<times> json) list \<Rightarrow> string" where
  "transmitted_body encode_str payload = json_dumps encode_str '', '' '': '' payload"

definition send_callback ::
  "(string \<Rightarrow> string \<Rightarrow> string) \<Rightarrow> (string \<Rightarrow> string) \<Rightarrow> string option \<Rightarrow> string option
     \<Rightarrow> string \<Rightarrow> int \<Rightarrow> int \<Rightarrow> string option \<Rightarrow> string \<Rightarrow> string \<Rightarrow> string option
     \<Rightarrow> callback_metadata option \<Rightarrow> string option \<Rightarrow> http_request option" where
  "send_callback hmac_sha256_hex encode_str callback_url webhook_token
       timestamp job task thm path stat error metadata error_summary =
     (case callback_url of
        None \<Rightarrow> None
      | Some url \<Rightarrow>
          if url = [] then None
          else
            let payload = callback_payload timestamp job task thm path stat error metadata error_summary;
                headers =
                  (case webhook_token of
                     None \<Rightarrow> []
                   | Some token \<Rightarrow>
                       if token = [] then []
                       else [(''X-Pukaist-Token'', token),
                             (''X-Pukaist-Signature'',
                                ''sha256='' @ hmac_sha256_hex token (signed_body encode_str payload)),
                             (''Content-Type'', ''application/json'')])
            in Some \<lparr>req_url = url, req_headers = headers,
                      req_body = transmitted_body encode_str payload\<rparr>)"

subsection \<open>Example\<close>

text \<open>The JSON literal of a string that needs no escaping.\<close>

definition quote_plain :: "string \<Rightarrow> string" where
  "quote_plain s = [CHR 0x22] @ s @ [CHR 0x22]"

section \<open>One worker iteration (src/worker.py, run\_once)\<close>

text \<open>
  The part of \<open>run_once\<close> that follows the lease, for one leased row. Every call that
  reaches outside the process (database, files, HTTP, logging) either raises or returns,
  and what it does on this row is given; so is the outcome of the local helpers
  \<open>extract_coords\<close>, \<open>derive_insights\<close> and \<open>redact\<close>. The model is what \<open>run_once\<close>,
  \<open>_emit_outputs\<close> and the LLM client do with each outcome and with the values that flow
  between them. The switches are the settings \<open>run_once\<close> reads, after the per-task
  overrides of the intent.
\<close>

record worker_settings =
  project_period_configured :: bool
  summary_enabled :: bool
  effective_llm_mode :: string
  llm_mode :: string
  llm_offline :: bool
  llm_forensic_enabled :: bool
  llm_insights_enabled :: bool
  llm_endpoint_configured :: bool
  embeddings_configured :: bool
  place_suggest_enabled :: bool

text \<open>
  What \<open>json.loads\<close> can return for a reply of the model: any JSON value. \<open>RNull\<close> is
  Python's \<open>None\<close>, which is also what the client returns when it has no reply.
\<close>

datatype reply =
    RNull
  | RBool bool
  | RInt int
  | RFloat real
  | RString string
  | RArray "reply list"
  | RObject "(string \<times> reply) list"

text \<open>Python's truth value, \<open>isinstance(v, dict)\<close>, \<open>type(v).__name__\<close> and \<open>v.get(key)\<close>.\<close>

definition truthy :: "reply \<Rightarrow> bool" where
  "truthy v =
     (case v of
        RNull \<Rightarrow> False
      | RBool b \<Rightarrow> b
      | RInt i \<Rightarrow> i \<noteq> 0
      | RFloat x \<Rightarrow> x \<noteq> 0
      | RString t \<Rightarrow> t \<noteq> []
      | RArray vs \<Rightarrow> vs \<noteq> []
      | RObject kvs \<Rightarrow> kvs \<noteq> [])"

definition is_object :: "reply \<Rightarrow> bool" where
  "is_object v = (case v of RObject _ \<Rightarrow> True | _ \<Rightarrow> False)"

definition type_name :: "reply \<Rightarrow> string" where
  "type_name v =
     (case v of
        RNull \<Rightarrow> ''NoneType''
      | RBool _ \<Rightarrow> ''bool''
      | RInt _ \<Rightarrow> ''int''
      | RFloat _ \<Rightarrow> ''float''
      | RString _ \<Rightarrow> ''str''
      | RArray _ \<Rightarrow> ''list''
      | RObject _ \<Rightarrow> ''dict'')"

definition py_get :: "reply \<Rightarrow> string \<Rightarrow> reply" where
  "py_get v key =
     (case v of
        RObject kvs \<Rightarrow> (case map_of kvs key of None \<Rightarrow> RNull | Some x \<Rightarrow> x)
      | _ \<Rightarrow> RNull)"

text \<open>The entries of the inferred metadata that \<open>run_once\<close> and validation look at.\<close>

record record_metadata =
  doc_id :: "string option"
  extension :: "string option"
  doc_type :: "string option"

text \<open>
  The calls of one iteration, in the order of the source. \<open>bind_error\<close> is the text of
  the exception \<open>sqlite3\<close> raises for a parameter of a type it does not store.
\<close>

record pipeline_calls =
  has_job :: bool
  set_job_processing :: "py_exception + unit"
  process_task :: "py_exception + string"
  infer_metadata :: "py_exception + record_metadata"
  period_context :: "py_exception + unit"
  should_use_llm :: "py_exception + bool"
  redact :: "py_exception + string"
  http_summarize :: "py_exception + string"
  http_forensic :: "py_exception + reply"
  index_connect :: "py_exception + unit"
  bind_error :: string
  index_insert :: "py_exception + int"
  embed_and_store :: "py_exception + unit"
  extract_coords :: "py_exception + unit"
  place_suggest :: "py_exception + unit"
  derive_insights :: "py_exception + unit"
  http_insights :: "py_exception + reply"
  score_relevancy :: "py_exception + string option"
  add_geo_points :: "py_exception + unit"
  derive_geo_tags :: "py_exception + string"
  write_staging_json :: "py_exception + unit"
  open_notebook :: "py_exception + unit"
  write_notebook :: "py_exception + unit"
  move_processed_file :: "py_exception + unit"
  queue_complete :: "py_exception + unit"
  set_job_done :: "py_exception + unit"
  send_job_callback :: "py_exception + unit"
  log_completed :: "py_exception + unit"
  count_completed :: "py_exception + unit"
  observe_duration :: "py_exception + unit"

text \<open>\<open>validate_record\<close> and \<open>summarize_errors\<close> (src/validate.py).\<close>

definition validate_record :: "char chartab \<Rightarrow> string \<Rightarrow> record_metadata \<Rightarrow> string list" where
  "validate_record tab content metadata =
     (if content = [] \<or> strip tab content = [] then [''empty content''] else [])
     @ (if length (strip tab content) < 10 then [''content too short to index''] else [])
     @ (if doc_id metadata = None \<or> doc_id metadata = Some [] then [''missing doc_id''] else [])
     @ (if extension metadata = Some [] \<or> extension metadata = None
        then [''missing extension''] else [])"

definition summarize_errors :: "string list \<Rightarrow> string" where
  "summarize_errors errors = (if errors = [] then [] else join ''; '' errors)"

text \<open>
  The LLM client (src/llm\_client.py behind src/llm\_adapter.py). \<open>summarize\<close> falls
  back to a snippet of its input, without a network call when no endpoint is configured
  and in its own \<open>except\<close> when the HTTP exchange fails; the other two return \<open>None\<close>
  there, and otherwise whatever JSON value the reply parses to. The snippet is the
  stripped input with newlines as spaces, cut at 400 characters, and \<open>ellipsis\<close> stands
  for the one character appended after a cut.
\<close>

definition heuristic_summary :: "char chartab \<Rightarrow> string \<Rightarrow> string \<Rightarrow> string" where
  "heuristic_summary tab ellipsis content =
     (let snippet = map (\<lambda>c. if c = CHR 0x0A then CHR '' '' else c) (strip tab content)
      in take 400 snippet @ (if length snippet > 400 then ellipsis else []))"

definition llm_summarize ::
  "char chartab \<Rightarrow> string \<Rightarrow> worker_settings \<Rightarrow> pipeline_calls \<Rightarrow> string \<Rightarrow> string option" where
  "llm_summarize tab ellipsis s env content =
     (if llm_offline s then None
      else if \<not> llm_endpoint_configured s then Some (heuristic_summary tab ellipsis content)
      else case http_summarize env of
             Inl _ \<Rightarrow> Some (heuristic_summary tab ellipsis content)
           | Inr text_reply \<Rightarrow> Some text_reply)"

definition llm_analyze_forensic :: "worker_settings \<Rightarrow> pipeline_calls \<Rightarrow> reply" where
  "llm_analyze_forensic s env =
     (if llm_offline s then RNull
      else if \<not> llm_endpoint_configured s then RNull
      else case http_forensic env of Inl _ \<Rightarrow> RNull | Inr v \<Rightarrow> v)"

definition llm_extract_insights :: "worker_settings \<Rightarrow> pipeline_calls \<Rightarrow> reply" where
  "llm_extract_insights s env =
     (if llm_offline s then RNull
      else if \<not> llm_endpoint_configured s then RNull
      else case http_insights env of Inl _ \<Rightarrow> RNull | Inr v \<Rightarrow> v)"

text \<open>A statement outside any inner \<open>try\<close>: an exception leaves the block.\<close>

definition try_step :: "py_exception + 'a \<Rightarrow> ('a \<Rightarrow> py_exception + 'b) \<Rightarrow> py_exception + 'b" where
  "try_step r k = (case r of Inl e \<Rightarrow> Inl e | Inr v \<Rightarrow> k v)"

text \<open>A statement inside its own \<open>try ... except Exception\<close>: an exception leaves \<open>None\<close>.\<close>

definition fenced :: "py_exception + 'a \<Rightarrow> 'a option" where
  "fenced r = (case r of Inl _ \<Rightarrow> None | Inr v \<Rightarrow> Some v)"

text \<open>
  The forensic block of \<open>run_once\<close> (lines 206-212): \<open>redact\<close> and the client call stand
  in one \<open>try\<close>, and \<open>forensic\<close> stays \<open>None\<close> when either raises or the block is off.
\<close>

definition forensic_of :: "worker_settings \<Rightarrow> pipeline_calls \<Rightarrow> reply" where
  "forensic_of s env =
     (if llm_forensic_enabled s \<and> \<not> llm_offline s \<and> effective_llm_mode s = ''sync''
      then case redact env of Inl _ \<Rightarrow> RNull | Inr _ \<Rightarrow> llm_analyze_forensic s env
      else RNull)"

text \<open>
  The columns \<open>run_once\<close> takes from the forensic reply when it is a dict (lines 213-230)
  and hands to \<open>search_index.add_document\<close>; \<open>privileged\<close> and \<open>entities_json\<close> are a
  boolean and a string or \<open>None\<close> by then and are left out. \<open>sqlite3\<close> binds \<open>None\<close>,
  numbers within 64 bits, and strings; a list or a dict makes the INSERT raise.
\<close>

record document_fields =
  df_record_type :: reply
  df_breach_category :: reply
  df_reliability :: reply
  df_key_quote :: reply

definition document_fields_of :: "record_metadata \<Rightarrow> reply \<Rightarrow> document_fields" where
  "document_fields_of metadata forensic =
     (let record_type = (case doc_type metadata of None \<Rightarrow> RNull | Some t \<Rightarrow> RString t)
      in if is_object forensic
         then \<lparr>df_record_type = (if truthy (py_get forensic ''record_type'')
                                  then py_get forensic ''record_type'' else record_type),
               df_breach_category = py_get forensic ''breach_category'',
               df_reliability = py_get forensic ''reliability'',
               df_key_quote = py_get forensic ''key_quote''\<rparr>
         else \<lparr>df_record_type = record_type, df_breach_category = RNull,
               df_reliability = RNull, df_key_quote = RNull\<rparr>)"

definition bindable :: "reply \<Rightarrow> bool" where
  "bindable v =
     (case v of
        RArray _ \<Rightarrow> False
      | RObject _ \<Rightarrow> False
      | RInt i \<Rightarrow> - (2 ^ 63) \<le> i \<and> i < 2 ^ 63
      | _ \<Rightarrow> True)"

definition fields_bindable :: "document_fields \<Rightarrow> bool" where
  "fields_bindable f =
     (bindable (df_record_type f) \<and> bindable (df_breach_category f)
      \<and> bindable (df_reliability f) \<and> bindable (df_key_quote f))"

text \<open>
  \<open>search_index.add_document\<close>: the connection, then the INSERT, which binds its
  parameters before it runs.
\<close>

definition add_document :: "pipeline_calls \<Rightarrow> document_fields \<Rightarrow> py_exception + int" where
  "add_document env f =
     try_step (index_connect env) (\<lambda>_.
       if fields_bindable f then index_insert env else Inl (Exception (bind_error env)))"

text \<open>
  \<open>_emit_outputs\<close>: the JSON artifact, then the notebook. The notebook block tests
  \<open>if forensic:\<close> and then calls \<open>forensic.get\<close>, which only a dict has.
\<close>

definition no_get_attribute :: "reply \<Rightarrow> string" where
  "no_get_attribute v =
     [CHR 0x27] @ type_name v @ [CHR 0x27] @ '' object has no attribute ''
       @ [CHR 0x27] @ ''get'' @ [CHR 0x27]"

definition emit_outputs :: "pipeline_calls \<Rightarrow> reply \<Rightarrow> py_exception + unit" where
  "emit_outputs env forensic =
     try_step (write_staging_json env) (\<lambda>_.
     try_step (open_notebook env) (\<lambda>_.
     try_step (if truthy forensic \<and> \<not> is_object forensic
               then Inl (Exception (no_get_attribute forensic)) else Inr ()) (\<lambda>_.
     write_notebook env)))"


text \<open>What the iteration hands to \<open>_emit_outputs\<close> beside the text and its metadata.\<close>

record artifacts =
  art_summary :: "string option"
  art_forensic :: reply
  art_embedded :: bool
  art_llm_insights :: "reply option"
  art_relevancy :: "string option"
  art_geo_tags :: "string option"

text \<open>
  How the row ends: \<open>queue_db.complete\<close> was the last word, or the \<open>except Exception\<close> of
  \<open>run_once\<close> called \<open>queue_db.flag\<close> with the text of the exception.
\<close>

datatype task_outcome = Done | Flagged string

text \<open>
  The \<open>try\<close> block of \<open>run_once\<close>, lines 167-342. The fenced statements are the read of
  the file's bytes and the upload triggers (neither leaves a trace here), the forensic
  block, the embedding, the relevancy scoring and the geo tags.
\<close>

definition run_pipeline ::
  "char chartab \<Rightarrow> string \<Rightarrow> worker_settings \<Rightarrow> pipeline_calls \<Rightarrow> py_exception + artifacts" where
  "run_pipeline tab ellipsis s env =
     try_step (if has_job env then set_job_processing env else Inr ()) (\<lambda>_.
     try_step (process_task env) (\<lambda>content.
     try_step (infer_metadata env) (\<lambda>metadata.
     try_step (if project_period_configured s then period_context env else Inr ()) (\<lambda>_.
     try_step (case validate_record tab content metadata of
                 [] \<Rightarrow> Inr ()
               | e # es \<Rightarrow> Inl (Exception (''validation failed: '' @ summarize_errors (e # es)))) (\<lambda>_.
     try_step (if summary_enabled s \<and> effective_llm_mode s = ''sync''
               then should_use_llm env else Inr False) (\<lambda>use_llm.
     try_step (if use_llm then redact env else Inr []) (\<lambda>llm_input.
     let summary = (if use_llm then llm_summarize tab ellipsis s env llm_input else None);
         forensic = forensic_of s env
     in
     try_step (add_document env (document_fields_of metadata forensic)) (\<lambda>doc.
     let embedded = (embeddings_configured s \<and> fenced (embed_and_store env) \<noteq> None)
     in
     try_step (extract_coords env) (\<lambda>_.
     try_step (if place_suggest_enabled s then place_suggest env else Inr ()) (\<lambda>_.
     try_step (derive_insights env) (\<lambda>_.
     try_step (if llm_insights_enabled s \<and> \<not> llm_offline s \<and> llm_mode s = ''sync''
               then redact env else Inr []) (\<lambda>_.
     let llm_structured = (if llm_insights_enabled s \<and> \<not> llm_offline s \<and> llm_mode s = ''sync''
                           then llm_extract_insights s env else RNull);
         llm_insights = (if is_object llm_structured then Some llm_structured else None);
         relevancy = (case score_relevancy env of Inl _ \<Rightarrow> None | Inr r \<Rightarrow> r)
     in
     try_step (add_geo_points env) (\<lambda>_.
     let geo_tags = fenced (derive_geo_tags env)
     in
     try_step (emit_outputs env forensic) (\<lambda>_.
     try_step (move_processed_file env) (\<lambda>_.
     try_step (queue_complete env) (\<lambda>_.
     try_step (if has_job env then set_job_done env else Inr ()) (\<lambda>_.
     try_step (if has_job env then send_job_callback env else Inr ()) (\<lambda>_.
     try_step (log_completed env) (\<lambda>_.
     try_step (count_completed env) (\<lambda>_.
     try_step (observe_duration env) (\<lambda>_.
     Inr \<lparr>art_summary = summary, art_forensic = forensic, art_embedded = embedded,
          art_llm_insights = llm_insights, art_relevancy = relevancy,
          art_geo_tags = geo_tags\<rparr>)))))))))))))))))))))"

definition outcome_of :: "py_exception + 'a \<Rightarrow> task_outcome" where
  "outcome_of r = (case r of Inr _ \<Rightarrow> Done | Inl (Exception msg) \<Rightarrow> Flagged msg)"

definition process_leased ::
  "char chartab \<Rightarrow> string \<Rightarrow> worker_settings \<Rightarrow> pipeline_calls \<Rightarrow> task_outcome" where
  "process_leased tab ellipsis s env = outcome_of (run_pipeline tab ellipsis s env)"

definition returns :: "py_exception + 'a \<Rightarrow> bool" where
  "returns r = (case r of Inl _ \<Rightarrow> False | Inr _ \<Rightarrow> True)"

text \<open>
  The statements of \<open>run_once\<close> that stand outside every inner \<open>try\<close>, in a run where each
  of them returns and validation finds nothing. \<open>redact\<close> is called unfenced before the
  summary, when the prefilter says yes, and before the LLM insights.
\<close>

definition unfenced_steps_return :: "char chartab \<Rightarrow> worker_settings \<Rightarrow> pipeline_calls \<Rightarrow> bool" where
  "unfenced_steps_return tab s env =
     ((if has_job env then returns (set_job_processing env) else True)
      \<and> (case process_task env of
            Inl _ \<Rightarrow> False
          | Inr content \<Rightarrow>
              (case infer_metadata env of
                 Inl _ \<Rightarrow> False
               | Inr metadata \<Rightarrow> validate_record tab content metadata = []))
      \<and> (if project_period_configured s then returns (period_context env) else True)
      \<and> (if summary_enabled s \<and> effective_llm_mode s = ''sync''
          then (case should_use_llm env of
                  Inl _ \<Rightarrow> False
                | Inr use_llm \<Rightarrow> if use_llm then returns (redact env) else True)
          else True)
      \<and> returns (index_connect env)
      \<and> returns (index_insert env)
      \<and> returns (extract_coords env)
      \<and> (if place_suggest_enabled s then returns (place_suggest env) else True)
      \<and> returns (derive_insights env)
      \<and> (if llm_insights_enabled s \<and> \<not> llm_offline s \<and> llm_mode s = ''sync''
          then returns (redact env) else True)
      \<and> returns (add_geo_points env)
      \<and> returns (write_staging_json env)
      \<and> returns (open_notebook env)
      \<and> returns (write_notebook env)
      \<and> returns (move_processed_file env)
      \<and> returns (queue_complete env)
      \<and> (if has_job env then returns (set_job_done env) \<and> returns (send_job_callback env) else True)
      \<and> returns (log_completed env)
      \<and> returns (count_completed env)
      \<and> returns (observe_duration env))"

subsection \<open>Example runs\<close>

definition sync_settings :: worker_settings where
  "sync_settings = \<lparr>project_period_configured = False, summary_enabled = True,
     effective_llm_mode = ''sync'', llm_mode = ''sync'',
     llm_offline = False, llm_forensic_enabled = True, llm_insights_enabled = True,
     llm_endpoint_configured = True, embeddings_configured = True,
     place_suggest_enabled = False\<rparr>"

text \<open>Every enrichment stage fails; everything else works.\<close>

definition enrichment_down :: pipeline_calls where
  "enrichment_down = \<lparr>has_job = True,
     set_job_processing = Inr (),
     process_task = Inr ''Minutes of the band council meeting'',
     infer_metadata = Inr \<lparr>doc_id = Some ''3f2a'', extension = Some ''txt'', doc_type = None\<rparr>,
     period_context = Inr (),
     should_use_llm = Inr True,
     redact = Inr ''Minutes of the band council meeting'',
     http_summarize = Inl (Exception ''connection refused''),
     http_forensic = Inl (Exception ''connection refused''),
     index_connect = Inr (),
     bind_error = ''Error binding parameter'',
     index_insert = Inr 12,
     embed_and_store = Inl (Exception ''embeddings unavailable''),
     extract_coords = Inr (),
     place_suggest = Inr (),
     derive_insights = Inr (),
     http_insights = Inl (Exception ''connection refused''),
     score_relevancy = Inl (Exception ''scorer failed''),
     add_geo_points = Inr (),
     derive_geo_tags = Inl (Exception ''aoi.json unreadable''),
     write_staging_json = Inr (),
     open_notebook = Inr (),
     write_notebook = Inr (),
     move_processed_file = Inr (),
     queue_complete = Inr (),
     set_job_done = Inr (),
     send_job_callback = Inr (),
     log_completed = Inr (),
     count_completed = Inr (),
     observe_duration = Inr ()\<rparr>"


text \<open>The forensic exchange succeeds and the reply parses to the array \<open>[1]\<close>.\<close>

definition forensic_array :: pipeline_calls where
  "forensic_array = enrichment_down\<lparr>http_forensic := Inr (RArray [RInt 1])\<rparr>"


section \<open>Task store: proofs\<close>

text \<open>
  The self-call happens only when the table held no matching pending row, and the
  recycled lease is such a row afterwards: this is what bounds the retry.
\<close>

lemma order_by_limit1_None_iff: "order_by_limit1 key xs = None \<longleftrightarrow> xs = []"
  by (induction xs) (auto split: option.splits)

lemma order_by_limit1_mem: "order_by_limit1 key xs = Some c \<Longrightarrow> c \<in> set xs"
  by (induction xs arbitrary: c) (auto split: option.splits if_splits)

lemma order_by_limit1_least: "order_by_limit1 key xs = Some c \<Longrightarrow> x \<in> set xs \<Longrightarrow> key c \<le> key x"
  by (induction xs arbitrary: c) (auto split: option.splits if_splits simp: order_by_limit1_None_iff)

lemma tenant_clause_cong: "tenant_id r' = tenant_id r \<Longrightarrow> tenant_clause tenant au r' = tenant_clause tenant au r"
  by (simp add: tenant_clause_def split: option.splits)

lemma pending_candidate_None_iff:
  "pending_candidate tenant au tasks = None \<longleftrightarrow>
     (\<forall>r\<in>set tasks. status r = ''pending'' \<longrightarrow> \<not> tenant_clause tenant au r)"
  by (auto simp: pending_candidate_def order_by_limit1_None_iff filter_empty_conv)

lemma pending_candidate_SomeD:
  "pending_candidate tenant au tasks = Some c \<Longrightarrow>
     c \<in> set tasks \<and> status c = ''pending'' \<and> tenant_clause tenant au c"
  using order_by_limit1_mem [of created_at _ c] by (fastforce simp: pending_candidate_def)

lemma read_back_claim_None:
  assumes "read_back now (claim_update now tenant au tasks) = None"
  shows "pending_candidate tenant au tasks = None"
proof (cases "pending_candidate tenant au tasks")
  case None then show ?thesis .
next
  case (Some c)
  then have c: "c \<in> set tasks" using pending_candidate_SomeD by blast
  let ?f = "\<lambda>r. if task_id r = task_id c
                    then r\<lparr>status := ''leased'', leased_at := Some now,
                           attempts := attempts r + 1, updated_at := now\<rparr>
                    else r"
  have "?f c \<in> set (claim_update now tenant au tasks)"
    using c Some by (simp add: claim_update_def)
  moreover have "status (?f c) = ''leased'' \<and> sql_eq (leased_at (?f c)) (Some now)"
    by (simp add: sql_eq_def)
  ultimately have "read_back now (claim_update now tenant au tasks) \<noteq> None"
    unfolding read_back_def find_None_iff by blast
  with assms show ?thesis by simp
qed

lemma select_expired_SomeD:
  "select_expired now vt tenant au tasks = Some e \<Longrightarrow>
     e \<in> set tasks \<and> status e = ''leased'' \<and> sql_lt (leased_at e) (now - real_of_int vt)
       \<and> tenant_clause tenant au e"
  using order_by_limit1_mem [of leased_at _ e] by (fastforce simp: select_expired_def)

lemma recycle_has_pending:
  assumes "e \<in> set tasks" "tenant_clause tenant au e"
  shows "\<exists>r\<in>set (recycle now (task_id e) tasks). status r = ''pending'' \<and> tenant_clause tenant au r"
proof -
  let ?r = "e\<lparr>status := ''pending'', updated_at := now\<rparr>"
  have "?r \<in> set (recycle now (task_id e) tasks)"
    using assms(1) by (force simp: recycle_def)
  moreover have "tenant_clause tenant au ?r"
    using assms(2) tenant_clause_cong [of ?r e] by simp
  ultimately show ?thesis by force
qed

termination lease_one
proof (relation "measure (\<lambda>(clock, k, vt, tenant, au, tasks).
          if (\<exists>r\<in>set tasks. status r = ''pending'' \<and> tenant_clause tenant au r) then 0 else 1)", goal_cases)
  case 1
  show ?case by simp
next
  case (2 clock k vt tenant au tasks now tasks1 e)
  from 2 have "read_back (clock k) (claim_update (clock k) tenant au tasks) = None" by simp
  then have none: "pending_candidate tenant au tasks = None"
    by (rule read_back_claim_None)
  then have same: "claim_update (clock k) tenant au tasks = tasks"
    by (simp add: claim_update_def)
  from 2 same have "e \<in> set tasks \<and> tenant_clause tenant au e"
    using select_expired_SomeD by fastforce
  then have "\<exists>r\<in>set (recycle (clock k) (task_id e) tasks). status r = ''pending'' \<and> tenant_clause tenant au r"
    using recycle_has_pending by blast
  with none same 2(1,2) show ?case
    by (simp add: pending_candidate_None_iff)
qed

declare lease_one.simps [simp del]

lemma recycle_other_ids:
  "\<forall>r\<in>set tasks. task_id r \<noteq> tid \<Longrightarrow> recycle now tid tasks = tasks"
  by (auto simp: recycle_def intro!: map_idI)

lemma rows_changed_Cons:
  "rows_changed (x # xs) (y # ys) = (if x \<noteq> y then 1 else 0) + rows_changed xs ys"
  by (simp add: rows_changed_def)

lemma rows_changed_Nil: "rows_changed [] ys = 0"
  by (simp add: rows_changed_def)

lemma rows_changed_same: "rows_changed xs xs = 0"
  by (induction xs) (simp_all add: rows_changed_Cons rows_changed_Nil)

lemma recycle_Cons:
  "recycle now tid (x # xs) =
     (if task_id x = tid then x\<lparr>status := ''pending'', updated_at := now\<rparr> else x) # recycle now tid xs"
  by (simp add: recycle_def)

lemma recycle_changes_one:
  assumes "distinct (map task_id tasks)" "e \<in> set tasks" "status e \<noteq> ''pending''"
  shows "rows_changed tasks (recycle now (task_id e) tasks) = 1"
  using assms
proof (induction tasks)
  case Nil
  then show ?case by simp
next
  case (Cons x xs)
  show ?case
  proof (cases "task_id x = task_id e")
    case True
    with Cons.prems have xe: "x = e" by (auto simp: image_iff)
    from Cons.prems True have "\<forall>r\<in>set xs. task_id r \<noteq> task_id e" by (auto simp: image_iff)
    then have rest: "recycle now (task_id e) xs = xs" by (rule recycle_other_ids)
    have "x\<lparr>status := ''pending'', updated_at := now\<rparr> \<noteq> x"
    proof
      assume "x\<lparr>status := ''pending'', updated_at := now\<rparr> = x"
      then have "status (x\<lparr>status := ''pending'', updated_at := now\<rparr>) = status x" by simp
      with xe Cons.prems(3) show False by simp
    qed
    then have "x \<noteq> x\<lparr>status := ''pending'', updated_at := now\<rparr>" by (rule not_sym)
    with True rest show ?thesis
      by (simp add: recycle_Cons rows_changed_Cons rows_changed_same)
  next
    case False
    with Cons.prems have "e \<in> set xs" by auto
    with Cons False show ?thesis
      by (simp add: recycle_Cons rows_changed_Cons)
  qed
qed

lemma lease_one_hit:
  "read_back (clock k) (claim_update (clock k) tenant au tasks) = Some row \<Longrightarrow>
   lease_one clock k vt tenant au tasks
     = \<lparr>leased_row = Some row, store = claim_update (clock k) tenant au tasks, self_calls = 0\<rparr>"
  by (simp add: lease_one.simps [of clock k vt tenant au tasks] Let_def)

lemma lease_one_miss:
  "read_back (clock k) (claim_update (clock k) tenant au tasks) = None \<Longrightarrow>
   select_expired (clock k) vt tenant au (claim_update (clock k) tenant au tasks) = None \<Longrightarrow>
   lease_one clock k vt tenant au tasks
     = \<lparr>leased_row = None, store = claim_update (clock k) tenant au tasks, self_calls = 0\<rparr>"
  by (simp add: lease_one.simps [of clock k vt tenant au tasks] Let_def)

lemma lease_one_retry:
  "read_back (clock k) (claim_update (clock k) tenant au tasks) = None \<Longrightarrow>
   select_expired (clock k) vt tenant au (claim_update (clock k) tenant au tasks) = Some e \<Longrightarrow>
   lease_one clock k vt tenant au tasks
     = (lease_one clock (Suc k) vt tenant au
          (recycle (clock k) (task_id e) (claim_update (clock k) tenant au tasks)))
       \<lparr>self_calls := Suc (self_calls (lease_one clock (Suc k) vt tenant au
          (recycle (clock k) (task_id e) (claim_update (clock k) tenant au tasks))))\<rparr>"
  by (simp add: lease_one.simps [of clock k vt tenant au tasks] Let_def)

lemma lease_one_pending_no_retry:
  assumes "pending_candidate tenant au tasks \<noteq> None"
  shows "self_calls (lease_one clock k vt tenant au tasks) = 0
         \<and> leased_row (lease_one clock k vt tenant au tasks) \<noteq> None"
proof -
  have "read_back (clock k) (claim_update (clock k) tenant au tasks) \<noteq> None"
  proof
    assume "read_back (clock k) (claim_update (clock k) tenant au tasks) = None"
    then have "pending_candidate tenant au tasks = None" by (rule read_back_claim_None)
    with assms show False by simp
  qed
  then obtain row where "read_back (clock k) (claim_update (clock k) tenant au tasks) = Some row"
    by auto
  then show ?thesis by (simp add: lease_one_hit)
qed

lemma recycle_pending_candidate:
  assumes "select_expired now vt tenant au tasks = Some e"
  shows "pending_candidate tenant au (recycle now (task_id e) tasks) \<noteq> None"
proof -
  from assms have "e \<in> set tasks" "tenant_clause tenant au e"
    using select_expired_SomeD [of now vt tenant au tasks e] by simp_all
  then have "\<exists>r\<in>set (recycle now (task_id e) tasks). status r = ''pending'' \<and> tenant_clause tenant au r"
    by (rule recycle_has_pending)
  then show ?thesis
    by (simp add: pending_candidate_None_iff)
qed

lemma lease_one_self_calls_le: "self_calls (lease_one clock k vt tenant au tasks) \<le> 1"
proof (cases "read_back (clock k) (claim_update (clock k) tenant au tasks)")
  case (Some row)
  then show ?thesis by (simp add: lease_one_hit)
next
  case None
  show ?thesis
  proof (cases "select_expired (clock k) vt tenant au (claim_update (clock k) tenant au tasks)")
    case N2: None
    with None show ?thesis by (simp add: lease_one_miss)
  next
    case (Some e)
    have "self_calls (lease_one clock (Suc k) vt tenant au
                 (recycle (clock k) (task_id e) (claim_update (clock k) tenant au tasks))) = 0"
      using lease_one_pending_no_retry [OF recycle_pending_candidate [OF Some]] by simp
    with None Some show ?thesis by (simp add: lease_one_retry)
  qed
qed

text \<open>
  C1. \<open>lease_one\<close> reads the claimed row back by \<open>status = 'leased' AND leased_at = now\<close>,
  not by id. On a table where another row is already leased with the same timestamp, the
  conditional update claims the oldest matching pending row (id 2, tenant-a) but the row
  returned is the other one (id 1, held for tenant-b).
\<close>

theorem lease_one_returns_other_row:
  "lease_one (\<lambda>k. 100) 0 300 (Some ''tenant-a'') False [held_row, fresh_row]
     = \<lparr>leased_row = Some held_row,
        store = [held_row, fresh_row\<lparr>status := ''leased'', leased_at := Some 100,
                                    attempts := 1, updated_at := 100\<rparr>],
        self_calls = 0\<rparr>"
  by (simp add: lease_one.simps [of _ 0] held_row_def fresh_row_def claim_update_def
        pending_candidate_def tenant_clause_def read_back_def sql_eq_def)

text \<open>
  Where no row already carries \<open>status = 'leased'\<close> with the timestamp of the call, the
  read-back does find the claimed row: the oldest matching pending row comes back leased,
  \<open>leased_at = now\<close>, \<open>attempts\<close> one higher, without a retry. Of two pending rows of one
  tenant the one created first is returned.
\<close>

lemma read_back_after_claim:
  assumes "distinct (map task_id tasks)" "c \<in> set tasks"
      and "\<forall>r\<in>set tasks. \<not> (status r = ''leased'' \<and> leased_at r = Some now)"
  shows "read_back now
           (map (\<lambda>r. if task_id r = task_id c
                     then r\<lparr>status := ''leased'', leased_at := Some now,
                            attempts := attempts r + 1, updated_at := now\<rparr>
                     else r) tasks)
         = Some (c\<lparr>status := ''leased'', leased_at := Some now,
                   attempts := attempts c + 1, updated_at := now\<rparr>)"
  using assms
proof (induction tasks)
  case Nil
  then show ?case by simp
next
  case (Cons x xs)
  show ?case
  proof (cases "task_id x = task_id c")
    case True
    with Cons.prems have "x = c" by (auto simp: image_iff)
    then show ?thesis by (simp add: read_back_def sql_eq_def)
  next
    case False
    with Cons.prems have "c \<in> set xs" by auto
    from Cons.prems have "\<not> (status x = ''leased'' \<and> sql_eq (leased_at x) (Some now))"
      by (cases "leased_at x") (auto simp: sql_eq_def)
    then have nx: "\<not> (status x = ''leased'' \<and> sql_eq (leased_at x) (Some now))" .
    from Cons.prems have "distinct (map task_id xs)"
        "\<forall>r\<in>set xs. \<not> (status r = ''leased'' \<and> leased_at r = Some now)"
      by simp_all
    with Cons.IH \<open>c \<in> set xs\<close> have ih: "read_back now
           (map (\<lambda>r. if task_id r = task_id c
                     then r\<lparr>status := ''leased'', leased_at := Some now,
                            attempts := attempts r + 1, updated_at := now\<rparr>
                     else r) xs)
         = Some (c\<lparr>status := ''leased'', leased_at := Some now,
                   attempts := attempts c + 1, updated_at := now\<rparr>)"
      by blast
    show ?thesis
      using ih nx False by (auto simp: read_back_def)
  qed
qed

lemma lease_one_claims_oldest:
  assumes "distinct (map task_id tasks)"
      and "pending_candidate tenant au tasks = Some c"
      and "\<forall>r\<in>set tasks. \<not> (status r = ''leased'' \<and> leased_at r = Some (clock k))"
  shows "leased_row (lease_one clock k vt tenant au tasks)
           = Some (c\<lparr>status := ''leased'', leased_at := Some (clock k),
                     attempts := attempts c + 1, updated_at := clock k\<rparr>)
         \<and> store (lease_one clock k vt tenant au tasks) = claim_update (clock k) tenant au tasks
         \<and> self_calls (lease_one clock k vt tenant au tasks) = 0
         \<and> c \<in> set tasks \<and> status c = ''pending'' \<and> tenant_clause tenant au c
         \<and> (\<forall>r\<in>set tasks. status r = ''pending'' \<and> tenant_clause tenant au r
               \<longrightarrow> created_at c \<le> created_at r)"
proof -
  from assms(2) have c: "c \<in> set tasks" "status c = ''pending''" "tenant_clause tenant au c"
    using pending_candidate_SomeD by blast+
  have rb: "read_back (clock k) (claim_update (clock k) tenant au tasks)
        = Some (c\<lparr>status := ''leased'', leased_at := Some (clock k),
                   attempts := attempts c + 1, updated_at := clock k\<rparr>)"
    using read_back_after_claim [OF assms(1) c(1) assms(3)] assms(2)
    by (simp add: claim_update_def)
  have least: "\<forall>r\<in>set tasks. status r = ''pending'' \<and> tenant_clause tenant au r
               \<longrightarrow> created_at c \<le> created_at r"
    using assms(2) order_by_limit1_least [of created_at _ c]
    by (auto simp: pending_candidate_def)
  from rb c least show ?thesis by (simp add: lease_one_hit)
qed

lemma lease_one_oldest_first:
  "leased_row (lease_one (\<lambda>k. 100) 0 300 (Some ''tenant-a'') True [later_row, fresh_row])
     = Some (fresh_row\<lparr>status := ''leased'', leased_at := Some 100, attempts := 1,
                       updated_at := 100\<rparr>)"
  by (simp add: lease_one.simps [of _ 0] later_row_def fresh_row_def claim_update_def
        pending_candidate_def tenant_clause_def read_back_def sql_eq_def)

text \<open>
  C2, as stated: the retry is a loop, not recursion. In the source the retry is the
  function calling itself; on a table holding one expired lease the call re-invokes
  itself once.
\<close>

theorem lease_one_retry_is_self_call:
  "self_calls (lease_one (\<lambda>k. 1000 + real k) 0 300 None True [stale_row]) = 1"
  by (simp add: lease_one.simps [of _ 0] lease_one.simps [of _ "Suc 0"] stale_row_def
        claim_update_def pending_candidate_def tenant_clause_def read_back_def sql_eq_def
        sql_lt_def select_expired_def recycle_def)

lemma select_expired_oldest:
  assumes "select_expired now vt tenant au tasks = Some e"
      and "r \<in> set tasks" "status r = ''leased''"
      and "sql_lt (leased_at r) (now - real_of_int vt)" "tenant_clause tenant au r"
  shows "leased_at e \<le> leased_at r"
  using assms order_by_limit1_least [of leased_at _ e r]
  by (simp add: select_expired_def)

lemma recycle_one_row:
  assumes "distinct (map task_id tasks)" "e \<in> set tasks"
  shows "recycle now (task_id e) tasks
           = map (\<lambda>r. if r = e then e\<lparr>status := ''pending'', updated_at := now\<rparr> else r) tasks"
proof -
  have "\<And>r. r \<in> set tasks \<Longrightarrow> (task_id r = task_id e) = (r = e)"
    using assms by (auto simp: distinct_map dest: inj_onD)
  then show ?thesis
    unfolding recycle_def by (intro map_cong) auto
qed

text \<open>
  C2, amended. On every table (ids distinct) \<open>lease_one\<close> returns, and it re-invokes
  itself at most once. When no pending row matches and the read-back finds nothing, either
  no matching lease has expired and the call returns nothing, leaving the table as it
  was; or one row \<open>e\<close> of the table is picked that is leased, matches the tenant clause,
  has \<open>leased_at\<close> older than now minus the visibility timeout, and has the least
  \<open>leased_at\<close> of all such rows; that row becomes \<open>e\<close> with status pending and
  \<open>updated_at = now\<close>, every other row stays as it was, so exactly one row changes; the
  function calls itself once on the new table, and that call returns a row.
\<close>

theorem lease_one_retry_once:
  assumes "distinct (map task_id tasks)"
  shows "self_calls (lease_one clock k vt tenant au tasks) \<le> 1 \<and>
    (pending_candidate tenant au tasks = None \<and> read_back (clock k) tasks = None \<longrightarrow>
      (case select_expired (clock k) vt tenant au tasks of
         None \<Rightarrow> lease_one clock k vt tenant au tasks
                  = \<lparr>leased_row = None, store = tasks, self_calls = 0\<rparr>
       | Some e \<Rightarrow>
           e \<in> set tasks \<and> status e = ''leased'' \<and> tenant_clause tenant au e
           \<and> sql_lt (leased_at e) (clock k - real_of_int vt)
           \<and> (\<forall>r\<in>set tasks.
                 status r = ''leased'' \<and> tenant_clause tenant au r
                 \<and> sql_lt (leased_at r) (clock k - real_of_int vt)
                 \<longrightarrow> leased_at e \<le> leased_at r)
           \<and> recycle (clock k) (task_id e) tasks
                = map (\<lambda>r. if r = e then e\<lparr>status := ''pending'', updated_at := clock k\<rparr> else r)
                    tasks
           \<and> rows_changed tasks (recycle (clock k) (task_id e) tasks) = 1
           \<and> lease_one clock k vt tenant au tasks
               = (lease_one clock (Suc k) vt tenant au (recycle (clock k) (task_id e) tasks))
                   \<lparr>self_calls := 1\<rparr>
           \<and> leased_row (lease_one clock k vt tenant au tasks) \<noteq> None))"
proof (intro conjI impI)
  show "self_calls (lease_one clock k vt tenant au tasks) \<le> 1"
    by (rule lease_one_self_calls_le)
next
  assume a: "pending_candidate tenant au tasks = None \<and> read_back (clock k) tasks = None"
  then have same: "claim_update (clock k) tenant au tasks = tasks"
    by (simp add: claim_update_def)
  show "case select_expired (clock k) vt tenant au tasks of
         None \<Rightarrow> lease_one clock k vt tenant au tasks
                  = \<lparr>leased_row = None, store = tasks, self_calls = 0\<rparr>
       | Some e \<Rightarrow>
           e \<in> set tasks \<and> status e = ''leased'' \<and> tenant_clause tenant au e
           \<and> sql_lt (leased_at e) (clock k - real_of_int vt)
           \<and> (\<forall>r\<in>set tasks.
                 status r = ''leased'' \<and> tenant_clause tenant au r
                 \<and> sql_lt (leased_at r) (clock k - real_of_int vt)
                 \<longrightarrow> leased_at e \<le> leased_at r)
           \<and> recycle (clock k) (task_id e) tasks
                = map (\<lambda>r. if r = e then e\<lparr>status := ''pending'', updated_at := clock k\<rparr> else r)
                    tasks
           \<and> rows_changed tasks (recycle (clock k) (task_id e) tasks) = 1
           \<and> lease_one clock k vt tenant au tasks
               = (lease_one clock (Suc k) vt tenant au (recycle (clock k) (task_id e) tasks))
                   \<lparr>self_calls := 1\<rparr>
           \<and> leased_row (lease_one clock k vt tenant au tasks) \<noteq> None"
  proof (cases "select_expired (clock k) vt tenant au tasks")
    case None
    with a same show ?thesis using lease_one_miss [of clock k tenant au tasks vt] by simp
  next
    case (Some e)
    let ?inner = "lease_one clock (Suc k) vt tenant au (recycle (clock k) (task_id e) tasks)"
    from Some have e: "e \<in> set tasks" "status e = ''leased''"
        "sql_lt (leased_at e) (clock k - real_of_int vt)" "tenant_clause tenant au e"
      using select_expired_SomeD [of "clock k" vt tenant au tasks e] by simp_all
    have oldest: "\<forall>r\<in>set tasks.
                 status r = ''leased'' \<and> tenant_clause tenant au r
                 \<and> sql_lt (leased_at r) (clock k - real_of_int vt)
                 \<longrightarrow> leased_at e \<le> leased_at r"
      using select_expired_oldest [OF Some] by blast
    have flipped: "recycle (clock k) (task_id e) tasks
                = map (\<lambda>r. if r = e then e\<lparr>status := ''pending'', updated_at := clock k\<rparr> else r)
                    tasks"
      using assms e(1) by (rule recycle_one_row)
    have inner: "self_calls ?inner = 0 \<and> leased_row ?inner \<noteq> None"
      by (rule lease_one_pending_no_retry [OF recycle_pending_candidate [OF Some]])
    have unfold: "lease_one clock k vt tenant au tasks = ?inner\<lparr>self_calls := Suc (self_calls ?inner)\<rparr>"
      using a same Some lease_one_retry [of clock k tenant au tasks vt e] by simp
    have one: "rows_changed tasks (recycle (clock k) (task_id e) tasks) = 1"
      using assms e by (intro recycle_changes_one) auto
    have tail1: "lease_one clock k vt tenant au tasks = ?inner\<lparr>self_calls := 1\<rparr>"
      using inner unfold by simp
    have tail2: "leased_row (lease_one clock k vt tenant au tasks) \<noteq> None"
      using inner unfold by simp
    show ?thesis unfolding Some option.case
      apply (insert e oldest flipped one tail1 tail2)
      apply (intro conjI)
              apply assumption+
      done
  qed
qed

text \<open>
  A table of five leases under the filter tenant-a without unscoped rows: row 7 has no
  tenant, row 1 belongs to tenant-b, row 9 has not expired, and rows 6 and 8 are expired
  leases of tenant-a, row 6 standing first in the table but leased later. It is row 8,
  the older one, that is flipped, and only that row.
\<close>

theorem lease_one_retry_once_witness:
  "select_expired 1000 300 (Some ''tenant-a'') False
       [stale_row, held_row, later_lease, oldest_row, recent_row] = Some oldest_row
   \<and> recycle 1000 8 [stale_row, held_row, later_lease, oldest_row, recent_row]
        = [stale_row, held_row, later_lease,
           oldest_row\<lparr>status := ''pending'', updated_at := 1000\<rparr>, recent_row]
   \<and> rows_changed [stale_row, held_row, later_lease, oldest_row, recent_row]
        (recycle 1000 8 [stale_row, held_row, later_lease, oldest_row, recent_row]) = 1
   \<and> self_calls (lease_one (\<lambda>k. 1000) 0 300 (Some ''tenant-a'') False
        [stale_row, held_row, later_lease, oldest_row, recent_row]) \<le> 1"
proof -
  let ?tasks = "[stale_row, held_row, later_lease, oldest_row, recent_row]"
  have d: "distinct (map task_id ?tasks)"
    by (simp add: stale_row_def held_row_def later_lease_def oldest_row_def recent_row_def)
  have p: "pending_candidate (Some ''tenant-a'') False ?tasks = None"
    by (simp add: pending_candidate_def stale_row_def held_row_def later_lease_def
          oldest_row_def recent_row_def)
  have r: "read_back 1000 ?tasks = None"
    by (simp add: read_back_def sql_eq_def stale_row_def held_row_def later_lease_def
          oldest_row_def recent_row_def)
  have s: "select_expired 1000 300 (Some ''tenant-a'') False ?tasks = Some oldest_row"
    by (simp add: select_expired_def sql_lt_def tenant_clause_def stale_row_def held_row_def
          later_lease_def oldest_row_def recent_row_def)
  have t: "task_id oldest_row = 8" by (simp add: oldest_row_def)
  have n: "oldest_row \<noteq> stale_row" "oldest_row \<noteq> held_row" "oldest_row \<noteq> later_lease"
      "oldest_row \<noteq> recent_row"
      "stale_row \<noteq> oldest_row" "held_row \<noteq> oldest_row" "later_lease \<noteq> oldest_row"
      "recent_row \<noteq> oldest_row"
    by (simp_all add: stale_row_def held_row_def later_lease_def oldest_row_def recent_row_def)
  note th = lease_one_retry_once [OF d, of "\<lambda>k. 1000" 0 300 "Some ''tenant-a''" False]
  have sc: "self_calls (lease_one (\<lambda>k. 1000) 0 300 (Some ''tenant-a'') False ?tasks) \<le> 1"
    using th by (rule conjunct1)
  note cs = th [THEN conjunct2, THEN mp, OF conjI [OF p r], unfolded s option.case]
  have c: "recycle 1000 (task_id oldest_row) ?tasks
             = map (\<lambda>r. if r = oldest_row
                        then oldest_row\<lparr>status := ''pending'', updated_at := 1000\<rparr> else r) ?tasks
           \<and> rows_changed ?tasks (recycle 1000 (task_id oldest_row) ?tasks) = 1
           \<and> self_calls (lease_one (\<lambda>k. 1000) 0 300 (Some ''tenant-a'') False ?tasks) \<le> 1"
    using cs sc by blast
  have c1: "recycle 1000 8 ?tasks
        = [stale_row, held_row, later_lease,
           oldest_row\<lparr>status := ''pending'', updated_at := 1000\<rparr>, recent_row]"
    using c [THEN conjunct1] t n by simp
  have c2: "rows_changed ?tasks (recycle 1000 8 ?tasks) = 1"
    using c [THEN conjunct2, THEN conjunct1] unfolding t .
  show ?thesis
    using s c1 c2 sc by (intro conjI)
qed

lemma owner_matches_iff: "owner_matches tenant r \<longleftrightarrow> tenant_id r = tenant"
  by (cases "tenant_id r"; cases tenant) (auto simp: owner_matches_def sql_eq_def)

text \<open>
  C6. \<open>complete\<close> and \<open>flag\<close> leave every row as it was when no row has the given id
  with the caller's tenant: that covers an unknown id and a known id whose tenant differs
  (a NULL tenant on one side only counts as a difference). Neither function has a raising
  path.
\<close>

theorem complete_flag_noop:
  assumes "\<forall>r\<in>set tasks. task_id r = tid \<longrightarrow> tenant_id r \<noteq> tenant"
  shows "complete now tid tenant tasks = tasks \<and> flag now tid err tenant tasks = tasks"
proof -
  have "\<And>r. r \<in> set tasks \<Longrightarrow> \<not> (task_id r = tid \<and> owner_matches tenant r)"
    using assms by (auto simp: owner_matches_iff)
  then show ?thesis
    unfolding complete_def flag_def by (auto intro!: map_idI)
qed

theorem complete_flag_noop_witness:
  "complete 200 1 (Some ''tenant-a'') [held_row, fresh_row] = [held_row, fresh_row]
   \<and> flag 200 1 ''boom'' (Some ''tenant-a'') [held_row, fresh_row] = [held_row, fresh_row]
   \<and> complete 200 9 None [held_row, fresh_row] = [held_row, fresh_row]
   \<and> flag 200 9 ''boom'' None [held_row, fresh_row] = [held_row, fresh_row]"
proof -
  have h1: "\<forall>r\<in>set [held_row, fresh_row]. task_id r = 1 \<longrightarrow> tenant_id r \<noteq> Some ''tenant-a''"
    by (simp add: held_row_def fresh_row_def)
  have h2: "\<forall>r\<in>set [held_row, fresh_row]. task_id r = 9 \<longrightarrow> tenant_id r \<noteq> None"
    by (simp add: held_row_def fresh_row_def)
  show ?thesis
    using complete_flag_noop [OF h1, of 200 "''boom''"] complete_flag_noop [OF h2, of 200 "''boom''"]
    by simp
qed

text \<open>
  C10. \<open>reset_to_pending\<close> takes no tenant and looks at no status: every row with the
  given id ends pending with \<open>last_error\<close> NULL and \<open>updated_at = now\<close>, all its other
  columns as they were, and every other row is untouched.
\<close>

theorem reset_to_pending_frame:
  "length (reset_to_pending now tid tasks) = length tasks \<and>
   (\<forall>i<length tasks.
      (task_id (tasks ! i) = tid \<longrightarrow>
         status (reset_to_pending now tid tasks ! i) = ''pending''
         \<and> last_error (reset_to_pending now tid tasks ! i) = None
         \<and> updated_at (reset_to_pending now tid tasks ! i) = now
         \<and> task_id (reset_to_pending now tid tasks ! i) = task_id (tasks ! i)
         \<and> file_path (reset_to_pending now tid tasks ! i) = file_path (tasks ! i)
         \<and> theme (reset_to_pending now tid tasks ! i) = theme (tasks ! i)
         \<and> intent_json (reset_to_pending now tid tasks ! i) = intent_json (tasks ! i)
         \<and> job_id (reset_to_pending now tid tasks ! i) = job_id (tasks ! i)
         \<and> attempts (reset_to_pending now tid tasks ! i) = attempts (tasks ! i)
         \<and> leased_at (reset_to_pending now tid tasks ! i) = leased_at (tasks ! i)
         \<and> tenant_id (reset_to_pending now tid tasks ! i) = tenant_id (tasks ! i)
         \<and> created_at (reset_to_pending now tid tasks ! i) = created_at (tasks ! i)) \<and>
      (task_id (tasks ! i) \<noteq> tid \<longrightarrow> reset_to_pending now tid tasks ! i = tasks ! i))"
  by (simp add: reset_to_pending_def)

theorem reset_to_pending_frame_witness:
  "status (reset_to_pending 300 3 [held_row, done_row] ! 1) = ''pending''
   \<and> last_error (reset_to_pending 300 3 [held_row, done_row] ! 1) = None
   \<and> tenant_id (reset_to_pending 300 3 [held_row, done_row] ! 1) = Some ''tenant-b''
   \<and> attempts (reset_to_pending 300 3 [held_row, done_row] ! 1) = 2
   \<and> reset_to_pending 300 3 [held_row, done_row] ! 0 = held_row"
proof -
  have i: "task_id ([held_row, done_row] ! 1) = 3" "task_id ([held_row, done_row] ! 0) \<noteq> 3"
    by (simp_all add: held_row_def done_row_def)
  have v: "tenant_id ([held_row, done_row] ! 1) = Some ''tenant-b''"
      "attempts ([held_row, done_row] ! 1) = 2"
    by (simp_all add: done_row_def)
  have l: "(1::nat) < length [held_row, done_row]" "(0::nat) < length [held_row, done_row]"
    by simp_all
  from reset_to_pending_frame [of 300 3 "[held_row, done_row]"] l i v
  show ?thesis by (simp del: One_nat_def)
qed

section \<open>Extraction quality and OCR escalation: proofs\<close>

lemma min_shift:
  fixes x x' c p :: real
  shows "x' \<le> x + p \<Longrightarrow> 0 \<le> p \<Longrightarrow> min x' c \<le> min x c + p"
  by (auto simp: min_def)

lemma weighted_sum_less:
  fixes a a' s s' m m' p :: real
  assumes "a' \<le> a" "s' + p \<le> s" "m' \<le> m + p" "0 < p"
  shows "a' * 0.4 + s' * 0.3 + 1 * 0.2 + m' * 0.1 < a * 0.4 + s * 0.3 + 1 * 0.2 + m * 0.1"
  using assms by linarith

lemma score_drop_printable:
  fixes L a s u :: real
  assumes L: "1 \<le> L" and a: "0 \<le> a" and s: "L \<le> s" and u: "0 \<le> u" "u \<le> L"
  shows "a / (L + 1) * 0.4 + s / (L + 1) * 0.3 + (L + 1) / (L + 1) * 0.2 + min ((u + 1) / (L + 1)) 0.5 * 0.1
         < a / L * 0.4 + s / L * 0.3 + L / L * 0.2 + min (u / L) 0.5 * 0.1"
proof -
  have Lpos: "0 < L" "0 < L + 1" using L by simp_all
  have A: "a / (L + 1) \<le> a / L"
    using a Lpos by (simp add: frac_le)
  have "s / L - s / (L + 1) = (s / L) / (L + 1)"
    using Lpos by (simp add: field_simps)
  moreover have "1 / (L + 1) \<le> (s / L) / (L + 1)"
    using s Lpos by (intro divide_right_mono) simp_all
  ultimately have S: "s / (L + 1) + 1 / (L + 1) \<le> s / L" by linarith
  have "(u + 1) / (L + 1) - u / L = ((L - u) / L) / (L + 1)"
    using Lpos by (simp add: field_simps)
  moreover have "((L - u) / L) / (L + 1) \<le> 1 / (L + 1)"
    using u Lpos by (intro divide_right_mono) simp_all
  ultimately have U: "(u + 1) / (L + 1) \<le> u / L + 1 / (L + 1)" by linarith
  have P: "0 < 1 / (L + 1)" using Lpos by simp
  then have P0: "0 \<le> 1 / (L + 1)" by simp
  have M: "min ((u + 1) / (L + 1)) 0.5 \<le> min (u / L) 0.5 + 1 / (L + 1)"
    using U P0 by (rule min_shift)
  have E: "(L + 1) / (L + 1) = 1" "L / L = 1" using Lpos by simp_all
  show ?thesis unfolding E using A S M P by (rule weighted_sum_less)
qed

lemma score_drop_unprintable:
  fixes L a s m :: real
  assumes L: "1 \<le> L"
  shows "a * 0.4 + s * 0.3 + L / (L + 1) * 0.2 + m * 0.1
         < a * 0.4 + s * 0.3 + L / L * 0.2 + m * 0.1"
proof -
  have lt: "L / (L + 1) < 1" using L by simp
  have E: "L / L = 1" using L by simp
  have R: "\<And>r::real. r < 1 \<Longrightarrow> a * 0.4 + s * 0.3 + r * 0.2 + m * 0.1
         < a * 0.4 + s * 0.3 + 1 * 0.2 + m * 0.1" by linarith
  show ?thesis unfolding E using lt by (rule R)
qed


lemma length_filter_insert:
  "length (filter P (take i xs @ [p] @ drop i xs)) = length (filter P xs) + (if P p then 1 else 0)"
proof -
  have "filter P xs = filter P (take i xs) @ filter P (drop i xs)"
    by (metis append_take_drop_id filter_append)
  then show ?thesis by simp
qed

lemma set_insert_at: "set (take i xs @ [p] @ drop i xs) = insert p (set xs)"
proof -
  have "set xs = set (take i xs) \<union> set (drop i xs)"
    by (metis append_take_drop_id set_append)
  then show ?thesis by auto
qed

lemma length_insert_at: "length (take i xs @ [p] @ drop i xs) = Suc (length xs)"
  by simp

lemma alpha_digit_cover:
  "\<forall>c\<in>set xs. P c \<or> Q c \<Longrightarrow> length xs \<le> length (filter P xs) + length (filter Q xs)"
  by (induction xs) auto

lemma quality_printable:
  assumes "filter (isprintable tab) text \<noteq> []"
  shows "quality tab text =
     (real (length (filter (isalpha tab) (filter (isprintable tab) text)))
        / real (length (filter (isprintable tab) text)) * 0.4
      + real (length (filter (isalpha tab) (filter (isprintable tab) text))
              + length (filter (isdigit tab) (filter (isprintable tab) text)))
        / real (length (filter (isprintable tab) text)) * 0.3
      + real (length (filter (isprintable tab) text)) / real (length text) * 0.2
      + min (real (card (set (filter (isprintable tab) text)))
               / real (length (filter (isprintable tab) text))) 0.5 * 0.1,
      length (filter (isprintable tab) text))"
proof -
  from assms have ne: "text \<noteq> []" by auto
  then have m: "max (length text) 1 = length text"
    by (cases "text") simp_all
  from assms ne m show ?thesis
    by (simp add: quality_def Let_def length_remdups_card_conv)
qed

text \<open>
  C9. For a non-empty string whose characters are all printable and alphabetic or digits,
  inserting at any position one character that is neither alphabetic nor a digit (a
  punctuation mark) gives a strictly lower score. Scores are compared as real numbers.
\<close>

theorem quality_punctuation_lowers:
  assumes ne: "text \<noteq> []"
      and clean: "\<forall>c\<in>set text. isprintable tab c \<and> (isalpha tab c \<or> isdigit tab c)"
      and punct: "\<not> isalpha tab p" "\<not> isdigit tab p"
  shows "fst (quality tab (take i text @ [p] @ drop i text)) < fst (quality tab text)"
proof -
  let ?ins = "take i text @ [p] @ drop i text"
  let ?L = "length text"
  let ?a = "length (filter (isalpha tab) text)"
  let ?d = "length (filter (isdigit tab) text)"
  let ?u = "card (set text)"
  from clean have pr: "filter (isprintable tab) text = text" by (simp add: filter_id_conv)
  from ne have L1: "1 \<le> real ?L" by (cases "text") simp_all
  have q0: "fst (quality tab text)
      = real ?a / real ?L * 0.4 + real (?a + ?d) / real ?L * 0.3 + real ?L / real ?L * 0.2
        + min (real ?u / real ?L) 0.5 * 0.1"
    using ne by (simp add: quality_printable pr)
  have a': "length (filter (isalpha tab) ?ins) = ?a"
    using punct by (simp only: length_filter_insert) simp
  have d': "length (filter (isdigit tab) ?ins) = ?d"
    using punct by (simp only: length_filter_insert) simp
  have len': "length ?ins = Suc ?L" by (rule length_insert_at)
  have pnotin: "p \<notin> set text" using clean punct by blast
  show ?thesis
  proof (cases "isprintable tab p")
    case True
    have "\<forall>c\<in>insert p (set text). isprintable tab c"
      using clean True by simp
    then have "\<forall>c\<in>set ?ins. isprintable tab c"
      by (simp only: set_insert_at)
    then have pr': "filter (isprintable tab) ?ins = ?ins" by (simp only: filter_id_conv)
    have u': "card (set ?ins) = Suc ?u"
      using pnotin by (simp only: set_insert_at) simp
    have q1: "fst (quality tab ?ins)
      = real ?a / (real ?L + 1) * 0.4 + real (?a + ?d) / (real ?L + 1) * 0.3
        + (real ?L + 1) / (real ?L + 1) * 0.2
        + min ((real ?u + 1) / (real ?L + 1)) 0.5 * 0.1"
    proof -
      have "filter (isprintable tab) ?ins \<noteq> []" unfolding pr' by simp
      from quality_printable [OF this] show ?thesis
        unfolding pr' a' d' u' len' by (simp add: add.commute)
    qed
    have cover: "real ?L \<le> real (?a + ?d)"
      using alpha_digit_cover [of "text" "isalpha tab" "isdigit tab"] clean by auto
    have ub: "real ?u \<le> real ?L" by (simp add: card_length)
    show ?thesis unfolding q0 q1
      using L1 cover ub by (intro score_drop_printable) simp_all
  next
    case False
    have pr': "filter (isprintable tab) ?ins = text"
    proof -
      have "filter (isprintable tab) ?ins
              = filter (isprintable tab) (take i text) @ filter (isprintable tab) (drop i text)"
        using False by simp
      also have "\<dots> = filter (isprintable tab) (take i text @ drop i text)"
        by (simp only: filter_append)
      also have "\<dots> = text" using pr by (simp only: append_take_drop_id)
      finally show ?thesis .
    qed
    have q1: "fst (quality tab ?ins)
      = real ?a / real ?L * 0.4 + real (?a + ?d) / real ?L * 0.3
        + real ?L / (real ?L + 1) * 0.2
        + min (real ?u / real ?L) 0.5 * 0.1"
    proof -
      have "filter (isprintable tab) ?ins \<noteq> []" unfolding pr' using ne .
      from quality_printable [OF this] show ?thesis
        unfolding pr' len' by (simp add: add.commute)
    qed
    show ?thesis unfolding q0 q1
      by (rule score_drop_unprintable) (rule L1)
  qed
qed

theorem quality_punctuation_lowers_witness:
  "fst (quality ascii_tab ''a.b1'') < fst (quality ascii_tab ''ab1'')"
proof -
  have c: "\<forall>c\<in>set ''ab1''. isprintable ascii_tab c \<and> (isalpha ascii_tab c \<or> isdigit ascii_tab c)"
    by (simp add: ascii_tab_def)
  have p: "\<not> isalpha ascii_tab CHR ''.''" "\<not> isdigit ascii_tab CHR ''.''"
    by (simp_all add: ascii_tab_def)
  have n: "''ab1'' \<noteq> []" by simp
  from quality_punctuation_lowers [OF n c p, of 1] show ?thesis by simp
qed

text \<open>
  C5. The fast engine runs with the vision-language backend enabled only after the
  up-front attempt on that backend raised. Then, when the fast engine's text scores
  below 0.25 or has fewer than 30 printable characters, the backend is invoked again,
  and the outcome is the backend's text only when it is not blank and its score is at
  least the fast engine's score; in every other case the fast engine's text stays,
  noted as low quality.
\<close>

theorem ocr_image_escalation:
  assumes vlm: "ocr_enabled settings" "ocr_backend settings = ''hunyuan''"
      and first: "hunyuan_first env = Inl e"
      and fast: "tesseract env = Inr fast_text"
      and low: "fst (quality tab fast_text) < 0.25 \<or> snd (quality tab fast_text) < 30"
  shows "fst (ocr_image tab settings env) = [''hunyuan'', ''tesseract'', ''hunyuan'']
    \<and> (snd (ocr_image tab settings env)
           = Inr (fast_text, ''tesseract'', Some ''Low OCR quality (tesseract)'')
        \<or> (\<exists>hy_text. hunyuan_escalation env = Inr hy_text
              \<and> fst (quality tab fast_text) \<le> fst (quality tab hy_text)
              \<and> strip tab hy_text \<noteq> []
              \<and> snd (ocr_image tab settings env)
                   = Inr (hy_text, ''hunyuan'', Some ''Escalated to Hunyuan (low tesseract quality)'')))
    \<and> (\<forall>hy_text. hunyuan_escalation env = Inr hy_text
              \<and> fst (quality tab hy_text) < fst (quality tab fast_text)
          \<longrightarrow> snd (ocr_image tab settings env)
                = Inr (fast_text, ''tesseract'', Some ''Low OCR quality (tesseract)''))"
  using assms
  by (cases "quality tab fast_text"; cases "hunyuan_escalation env")
     (auto simp: ocr_image_def Let_def)

theorem ocr_image_escalation_witness:
  "ocr_image ascii_tab hunyuan_settings garbled_scan
     = ([''hunyuan'', ''tesseract'', ''hunyuan''],
        Inr (''Treaty 8'', ''hunyuan'', Some ''Escalated to Hunyuan (low tesseract quality)''))
   \<and> fst (quality ascii_tab ''#~ ~#'') \<le> fst (quality ascii_tab ''Treaty 8'')"
proof -
  have v: "ocr_enabled hunyuan_settings" "ocr_backend hunyuan_settings = ''hunyuan''"
    by (simp_all add: hunyuan_settings_def)
  have f: "hunyuan_first garbled_scan = Inl (Exception ''timeout'')"
    by (simp add: garbled_scan_def)
  have t: "tesseract garbled_scan = Inr ''#~ ~#''"
    by (simp add: garbled_scan_def)
  have l: "fst (quality ascii_tab ''#~ ~#'') < 0.25 \<or> snd (quality ascii_tab ''#~ ~#'') < 30"
    by (simp add: quality_def ascii_tab_def Let_def)
  have h: "hunyuan_escalation garbled_scan = Inr ''Treaty 8''"
    by (simp add: garbled_scan_def)
  have n: "snd (ocr_image ascii_tab hunyuan_settings garbled_scan)
             \<noteq> Inr (''#~ ~#'', ''tesseract'', Some ''Low OCR quality (tesseract)'')"
    by (simp add: ocr_image_def garbled_scan_def hunyuan_settings_def Let_def quality_def
          ascii_tab_def strip_def)
  from ocr_image_escalation [OF v f t l] h n show ?thesis
    by (auto simp: prod_eq_iff)
qed

section \<open>Repetition cleanup: proofs\<close>

declare collapse_runs.simps [simp del]

subsection \<open>The cleanup on the example input\<close>

lemma length_cd: "length (concat (replicate k ''cd'')) = 2 * k"
  by (induction k) simp_all

lemma length_filler: "length filler = 1000"
  by (simp add: filler_def length_cd)

lemma drop_cd: "drop (2 * j) (concat (replicate (j + k) ''cd'')) = concat (replicate k ''cd'')"
  by (induction j) simp_all

lemma drop_filler: "drop 996 filler = ''cdcd''"
proof -
  have "drop (2 * 498) (concat (replicate (498 + 2) ''cd'')) = concat (replicate 2 ''cd'')"
    by (rule drop_cd)
  moreover have "concat (replicate 2 ''cd'') = ''cdcd''"
    by (simp add: numeral_2_eq_2)
  ultimately show ?thesis by (simp add: filler_def)
qed

lemma collapse_cd:
  assumes "r = [] \<or> hd r \<noteq> CHR ''d''"
  shows "collapse_runs (concat (replicate k ''cd'') @ r) = concat (replicate k ''cd'') @ collapse_runs r"
proof (induction k)
  case 0
  show ?case by simp
next
  case (Suc k)
  let ?R = "concat (replicate k ''cd'') @ r"
  have d: "takeWhile (\<lambda>x. x = CHR ''d'') ?R = []"
    using assms by (cases k; cases r) auto
  have "collapse_runs (concat (replicate (Suc k) ''cd'') @ r)
          = collapse_runs (CHR ''c'' # CHR ''d'' # ?R)" by simp
  also have "\<dots> = CHR ''c'' # collapse_runs (CHR ''d'' # ?R)"
    by (subst collapse_runs.simps) simp
  also have "\<dots> = CHR ''c'' # CHR ''d'' # collapse_runs ?R"
    by (subst collapse_runs.simps) (simp add: d)
  finally show ?case using Suc.IH by simp
qed

lemma collapse_filler:
  "r = [] \<or> hd r \<noteq> CHR ''d'' \<Longrightarrow> collapse_runs (filler @ r) = filler @ collapse_runs r"
  unfolding filler_def by (rule collapse_cd)

lemma collapse_tail1: "collapse_runs ''xxabxxabxxabxxabxxababababab'' = ''xxabxxabxxabxxabxxababababab''"
  by (simp add: collapse_runs.simps)

lemma collapse_tail2: "collapse_runs ''xxabxxabxxabxxabxxab'' = ''xxabxxabxxabxxabxxab''"
  by (simp add: collapse_runs.simps)

lemma clean_once:
  "clean_repeated_substrings degenerate_tail = filler @ ''xxabxxabxxabxxabxxab''"
  unfolding clean_repeated_substrings_def degenerate_tail_def
  apply (simp only: collapse_filler collapse_tail1 list.sel char.inject simp_thms)
  apply (simp add: trim_repeated_phrase_def length_filler Let_def count_repeats.simps)
  done

lemma clean_twice:
  "clean_repeated_substrings (filler @ ''xxabxxabxxabxxabxxab'') = filler @ ''xxab''"
  unfolding clean_repeated_substrings_def
  apply (simp add: collapse_filler collapse_tail2)
  apply (simp add: trim_repeated_phrase_def length_filler Let_def count_repeats.simps drop_filler)
  done

text \<open>
  C7, as stated: cleanup is idempotent. On the example the first application trims the
  four trailing \<open>ab\<close>, which uncovers \<open>xxab\<close> repeated five times at the end of a text
  still 1020 characters long; the second application trims that as well.
\<close>

theorem cleanup_not_idempotent:
  "clean_repeated_substrings (clean_repeated_substrings degenerate_tail)
     \<noteq> clean_repeated_substrings degenerate_tail"
  by (simp add: clean_once clean_twice)

subsection \<open>What the two passes preserve\<close>

lemma collapse_runs_Nil: "collapse_runs [] = []"
  by (simp add: collapse_runs.simps)

lemma collapse_runs_long:
  "c \<noteq> CHR 0x0A \<Longrightarrow> 15 \<le> length (takeWhile (\<lambda>x. x = c) cs) \<Longrightarrow>
   collapse_runs (c # cs) = c # c # c # collapse_runs (dropWhile (\<lambda>x. x = c) cs)"
  by (simp add: collapse_runs.simps)

lemma collapse_runs_short:
  "c = CHR 0x0A \<or> length (takeWhile (\<lambda>x. x = c) cs) < 15 \<Longrightarrow>
   collapse_runs (c # cs) = c # collapse_runs cs"
  by (auto simp: collapse_runs.simps)

lemma collapse_runs_head: "\<exists>ys. collapse_runs (c # cs) = c # ys"
  by (simp add: collapse_runs.simps)

lemma length_collapse_runs: "length (collapse_runs xs) \<le> length xs"
proof (induction xs rule: collapse_runs.induct)
  case 1
  show ?case by (simp add: collapse_runs_Nil)
next
  case (2 c cs)
  show ?case
  proof (cases "c \<noteq> CHR 0x0A \<and> 15 \<le> length (takeWhile (\<lambda>x. x = c) cs)")
    case True
    have "length cs = length (takeWhile (\<lambda>x. x = c) cs) + length (dropWhile (\<lambda>x. x = c) cs)"
      by (metis length_append takeWhile_dropWhile_id)
    with True 2(1) show ?thesis by (simp add: collapse_runs_long)
  next
    case False
    with 2(2) show ?thesis by (auto simp: collapse_runs_short)
  qed
qed

lemma takeWhile_dropWhile_Nil: "takeWhile P (dropWhile P xs) = []"
  by (induction xs) auto

text \<open>The leading run of a character never grows under the first pass.\<close>

lemma takeWhile_collapse_runs:
  "length (takeWhile (\<lambda>x. x = c) (collapse_runs xs)) \<le> length (takeWhile (\<lambda>x. x = c) xs)"
proof (induction xs rule: collapse_runs.induct)
  case 1
  show ?case by (simp add: collapse_runs_Nil)
next
  case (2 d ds)
  show ?case
  proof (cases "d = c")
    case False
    obtain ys where "collapse_runs (d # ds) = d # ys" using collapse_runs_head by blast
    with False show ?thesis by simp
  next
    case dc: True
    show ?thesis
    proof (cases "d \<noteq> CHR 0x0A \<and> 15 \<le> length (takeWhile (\<lambda>x. x = d) ds)")
      case True
      let ?rest = "dropWhile (\<lambda>x. x = d) ds"
      have "takeWhile (\<lambda>x. x = c) ?rest = []"
        using dc by (simp add: takeWhile_dropWhile_Nil)
      with 2(1) True dc have "takeWhile (\<lambda>x. x = c) (collapse_runs ?rest) = []"
        by simp
      with True dc show ?thesis by (simp add: collapse_runs_long)
    next
      case False
      with 2(2) dc show ?thesis by (auto simp: collapse_runs_short)
    qed
  qed
qed

lemma collapse_runs_idem: "collapse_runs (collapse_runs xs) = collapse_runs xs"
proof (induction xs rule: collapse_runs.induct)
  case 1
  show ?case by (simp add: collapse_runs_Nil)
next
  case (2 c cs)
  show ?case
  proof (cases "c \<noteq> CHR 0x0A \<and> 15 \<le> length (takeWhile (\<lambda>x. x = c) cs)")
    case True
    let ?rest = "dropWhile (\<lambda>x. x = c) cs"
    let ?R = "collapse_runs ?rest"
    have "takeWhile (\<lambda>x. x = c) ?rest = []"
      by (rule takeWhile_dropWhile_Nil)
    then have r0: "takeWhile (\<lambda>x. x = c) ?R = []"
      using takeWhile_collapse_runs [of c ?rest] by simp
    have "collapse_runs (c # c # c # ?R) = c # collapse_runs (c # c # ?R)"
      by (rule collapse_runs_short) (simp add: r0)
    also have "collapse_runs (c # c # ?R) = c # collapse_runs (c # ?R)"
      by (rule collapse_runs_short) (simp add: r0)
    also have "collapse_runs (c # ?R) = c # collapse_runs ?R"
      by (rule collapse_runs_short) (simp add: r0)
    finally show ?thesis using True 2(1) by (simp add: collapse_runs_long)
  next
    case False
    then have short: "c = CHR 0x0A \<or> length (takeWhile (\<lambda>x. x = c) cs) < 15" by auto
    then have "c = CHR 0x0A \<or> length (takeWhile (\<lambda>x. x = c) (collapse_runs cs)) < 15"
      using takeWhile_collapse_runs [of c cs] by auto
    then have "collapse_runs (c # collapse_runs cs) = c # collapse_runs (collapse_runs cs)"
      by (rule collapse_runs_short)
    with False 2(2) short show ?thesis by (simp add: collapse_runs_short)
  qed
qed

text \<open>A text the first pass leaves alone has prefixes it leaves alone.\<close>

lemma takeWhile_take_le:
  "length (takeWhile P (take k xs)) \<le> length (takeWhile P xs)"
proof (induction xs arbitrary: k)
  case Nil
  show ?case by simp
next
  case (Cons x xs)
  show ?case using Cons [of "k - 1"] by (cases k) auto
qed

lemma collapse_runs_fix_take:
  "collapse_runs xs = xs \<Longrightarrow> collapse_runs (take k xs) = take k xs"
proof (induction xs arbitrary: k rule: collapse_runs.induct)
  case 1
  show ?case by (simp add: collapse_runs_Nil)
next
  case (2 c cs)
  show ?case
  proof (cases "c \<noteq> CHR 0x0A \<and> 15 \<le> length (takeWhile (\<lambda>x. x = c) cs)")
    case True
    let ?rest = "dropWhile (\<lambda>x. x = c) cs"
    have "length cs = length (takeWhile (\<lambda>x. x = c) cs) + length ?rest"
      by (metis length_append takeWhile_dropWhile_id)
    moreover have "length (collapse_runs ?rest) \<le> length ?rest" by (rule length_collapse_runs)
    ultimately have "length (collapse_runs (c # cs)) < length (c # cs)"
      using True by (simp add: collapse_runs_long)
    with 2(3) show ?thesis by simp
  next
    case False
    then have short: "c = CHR 0x0A \<or> length (takeWhile (\<lambda>x. x = c) cs) < 15" by auto
    with 2(3) have fx: "collapse_runs cs = cs" by (simp add: collapse_runs_short)
    show ?thesis
    proof (cases k)
      case 0
      then show ?thesis by (simp add: collapse_runs_Nil)
    next
      case (Suc j)
      have "c = CHR 0x0A \<or> length (takeWhile (\<lambda>x. x = c) (take j cs)) < 15"
        using short takeWhile_take_le [of "\<lambda>x. x = c" j cs] by auto
      then have "collapse_runs (c # take j cs) = c # collapse_runs (take j cs)"
        by (rule collapse_runs_short)
      with 2(2) [OF False fx, of j] Suc show ?thesis by simp
    qed
  qed
qed

lemma trim_loop_prefix: "\<exists>k. trim_loop text lens = take k text"
proof (induction lens)
  case Nil
  have "trim_loop text [] = take (length text) text" by simp
  then show ?case by blast
next
  case (Cons len lens)
  then show ?case by (auto simp: Let_def)
qed

lemma trim_repeated_phrase_prefix: "\<exists>k. trim_repeated_phrase text = take k text"
proof (cases "length text < 1000")
  case True
  then have "trim_repeated_phrase text = take (length text) text"
    by (simp add: trim_repeated_phrase_def)
  then show ?thesis by blast
next
  case False
  then have "trim_repeated_phrase text = trim_loop text [2..<length text div 10 + 1]"
    by (simp only: trim_repeated_phrase_def Let_def if_False)
  then show ?thesis using trim_loop_prefix [of "text" "[2..<length text div 10 + 1]"] by simp
qed

lemma collapse_runs_clean:
  "collapse_runs (clean_repeated_substrings x) = clean_repeated_substrings x"
proof -
  obtain k where "trim_repeated_phrase (collapse_runs x) = take k (collapse_runs x)"
    using trim_repeated_phrase_prefix by blast
  then show ?thesis
    unfolding clean_repeated_substrings_def
    by (simp add: collapse_runs_fix_take collapse_runs_idem)
qed

text \<open>
  C7, amended. The run-collapsing pass is idempotent on every string, and it leaves the
  output of the cleanup as it is; so a second application of the cleanup only runs the
  trailing-phrase pass again. Whenever the cleaned text is shorter than 1000 characters
  that pass is skipped, and the cleanup is idempotent there.
\<close>

theorem cleanup_idempotent_when_short:
  "collapse_runs (collapse_runs x) = collapse_runs x
   \<and> clean_repeated_substrings (clean_repeated_substrings x)
       = trim_repeated_phrase (clean_repeated_substrings x)
   \<and> (length (clean_repeated_substrings x) < 1000 \<longrightarrow>
        clean_repeated_substrings (clean_repeated_substrings x) = clean_repeated_substrings x)"
proof (intro conjI impI)
  show "collapse_runs (collapse_runs x) = collapse_runs x" by (rule collapse_runs_idem)
next
  show a: "clean_repeated_substrings (clean_repeated_substrings x)
       = trim_repeated_phrase (clean_repeated_substrings x)"
    by (subst clean_repeated_substrings_def) (simp only: collapse_runs_clean)
  assume "length (clean_repeated_substrings x) < 1000"
  then have "trim_repeated_phrase (clean_repeated_substrings x) = clean_repeated_substrings x"
    by (simp add: trim_repeated_phrase_def)
  with a show "clean_repeated_substrings (clean_repeated_substrings x) = clean_repeated_substrings x"
    by simp
qed

theorem cleanup_idempotent_when_short_witness:
  "clean_repeated_substrings ''aaaaaaaaaaaaaaaaaaaab'' = ''aaab''
   \<and> clean_repeated_substrings (clean_repeated_substrings ''aaaaaaaaaaaaaaaaaaaab'') = ''aaab''"
proof -
  have c: "clean_repeated_substrings ''aaaaaaaaaaaaaaaaaaaab'' = ''aaab''"
    by (simp add: clean_repeated_substrings_def trim_repeated_phrase_def collapse_runs.simps)
  then have l: "length (clean_repeated_substrings ''aaaaaaaaaaaaaaaaaaaab'') < 1000" by simp
  from cleanup_idempotent_when_short [of "''aaaaaaaaaaaaaaaaaaaab''"] l
  have "clean_repeated_substrings (clean_repeated_substrings ''aaaaaaaaaaaaaaaaaaaab'')
          = clean_repeated_substrings ''aaaaaaaaaaaaaaaaaaaab''"
    by blast
  with c show ?thesis by simp
qed

section \<open>Point-in-AOI membership: proofs\<close>

lemma ring_square: "point_in_ring 5 5 square_ring = Inr True"
  by (simp add: point_in_ring_def square_ring_def edge_toggles_def upt_rec)

lemma ring_hole: "point_in_ring 5 5 hole_ring = Inr True"
  by (simp add: point_in_ring_def hole_ring_def edge_toggles_def upt_rec)

text \<open>
  C8, as stated: a point inside an interior ring is reported as not contained. For the
  square \<open>[0,10] x [0,10]\<close> with the hole \<open>[4,6] x [4,6]\<close> the point \<open>(5, 5)\<close> lies in the
  hole (the ring test says so), yet \<open>_point_in_feature\<close> reports the feature to contain
  it; the polygon test of \<open>geo_filter\<close>, which walks the holes, reports it outside.
\<close>

theorem point_in_feature_ignores_hole:
  "point_in_feature 5 5 (Some (Polygon [square_ring, hole_ring])) = Inr True
   \<and> point_in_ring 5 5 hole_ring = Inr True
   \<and> point_in_polygon 5 5 [square_ring, hole_ring] = Inr False"
  by (simp add: point_in_feature_def point_in_polygon_def ring_square ring_hole)

lemma multipolygon_first_rings:
  "multipolygon_loop lat lon (map (take 1) polys) = multipolygon_loop lat lon polys"
proof (induction polys)
  case Nil
  show ?case by simp
next
  case (Cons poly polys)
  then show ?case by (cases poly) (simp_all split: sum.splits bool.splits)
qed

lemma rectangle_ring:
  assumes "x0 < x1" "y0 < y1" "y1 - y0 \<noteq> 1 / 10 ^ 12"
  shows "point_in_ring lat lon [(x0, y0), (x0, y1), (x1, y1), (x1, y0), (x0, y0)]
           = Inr (x0 \<le> lon \<and> lon < x1 \<and> y0 \<le> lat \<and> lat < y1)"
proof -
  have d1: "y1 - y0 + 1 / 10 ^ 12 \<noteq> 0" using assms(2) by simp
  have d2: "y0 - y1 + 1 / 10 ^ 12 \<noteq> 0" using assms(3) by simp
  have idx: "[0..<5] = [0, 1, 2, 3, 4::nat]" by (simp add: upt_rec)
  show ?thesis
    using assms(1,2) d1 d2
    by (auto simp: point_in_ring_def idx edge_toggles_def)
qed

text \<open>
  C8, amended. Membership in an AOI is the ray-casting test against the exterior ring
  alone: for a polygon the answer is that of its first ring, whatever rings follow, and
  for a multi-polygon only the first ring of each polygon is looked at. For a rectangular
  exterior ring the answer is whether the point lies in the rectangle (lower and left
  edges included), also for a point that lies in a hole.
\<close>

theorem point_in_feature_exterior_only:
  "point_in_feature lat lon (Some (Polygon (outer # holes))) = point_in_ring lat lon outer
   \<and> point_in_feature lat lon (Some (MultiPolygon polys))
       = point_in_feature lat lon (Some (MultiPolygon (map (take 1) polys)))
   \<and> (x0 < x1 \<and> y0 < y1 \<and> y1 - y0 \<noteq> 1 / 10 ^ 12 \<longrightarrow>
        point_in_feature lat lon
          (Some (Polygon ([(x0, y0), (x0, y1), (x1, y1), (x1, y0), (x0, y0)] # holes)))
        = Inr (x0 \<le> lon \<and> lon < x1 \<and> y0 \<le> lat \<and> lat < y1))"
  by (simp add: point_in_feature_def multipolygon_first_rings rectangle_ring del: One_nat_def)

theorem point_in_feature_exterior_only_witness:
  "point_in_feature 2 2 (Some (Polygon [square_ring, hole_ring])) = Inr True
   \<and> point_in_feature 5 15 (Some (Polygon [square_ring, hole_ring])) = Inr False"
proof -
  have h: "(0::real) < 10 \<and> (0::real) < 10 \<and> (10::real) - 0 \<noteq> 1 / 10 ^ 12" by simp
  have a: "point_in_feature 2 2 (Some (Polygon (square_ring # [hole_ring])))
             = Inr ((0::real) \<le> 2 \<and> (2::real) < 10 \<and> (0::real) \<le> 2 \<and> (2::real) < 10)"
    unfolding square_ring_def
    using point_in_feature_exterior_only
      [where ?x0.0 = 0 and ?x1.0 = 10 and ?y0.0 = 0 and ?y1.0 = 10 and lat = 2 and lon = 2
         and holes = "[hole_ring]", THEN conjunct2, THEN conjunct2, THEN mp, OF h] .
  have b: "point_in_feature 5 15 (Some (Polygon (square_ring # [hole_ring])))
             = Inr ((0::real) \<le> 15 \<and> (15::real) < 10 \<and> (0::real) \<le> 5 \<and> (5::real) < 10)"
    unfolding square_ring_def
    using point_in_feature_exterior_only
      [where ?x0.0 = 0 and ?x1.0 = 10 and ?y0.0 = 0 and ?y1.0 = 10 and lat = 5 and lon = 15
         and holes = "[hole_ring]", THEN conjunct2, THEN conjunct2, THEN mp, OF h] .
  from a b show ?thesis by simp
qed

section \<open>Webhook delivery: proofs\<close>

text \<open>
  Whatever the string encoder, the transmitted body of a callback is 23 characters longer
  than the text that was signed: one space after each of the 12 colons and each of the 11
  commas between items.
\<close>

lemma join_length:
  "length (join sep xs) = sum_list (map length xs) + length sep * (length xs - 1)"
  by (induction sep xs rule: join.induct) simp_all

lemma bodies_differ:
  "length (transmitted_body enc (callback_payload ts j t th p s e m es))
     = length (signed_body enc (callback_payload ts j t th p s e m es)) + 23"
  by (simp add: transmitted_body_def signed_body_def json_dumps_def callback_payload_def)

text \<open>
  C4. With a callback URL and a webhook token configured, the signature header carries
  the HMAC of the compact serialisation (separators \<open>","\<close> and \<open>":"\<close>), while the body
  \<open>requests.post(..., json=payload)\<close> transmits is the default serialisation
  (separators \<open>", "\<close> and \<open>": "\<close>): the digest is not that of the transmitted body.
\<close>

theorem send_callback_signs_other_bytes:
  \<open>send_callback mac quote_plain (Some ''http://hook.test/cb'') (Some ''s3cret'')
         ''1700000000'' 1 2 None ''a.txt'' ''done'' None None None
   = Some \<lparr>req_url = ''http://hook.test/cb'',
            req_headers =
              [(''X-Pukaist-Token'', ''s3cret''),
               (''X-Pukaist-Signature'', ''sha256='' @ mac ''s3cret''
                  ''{"job_id":1,"task_id":2,"status":"done","theme":null,"file_path":"a.txt","error":null,"error_summary":null,"timestamp":"1700000000","doc_type":null,"inferred_date":null,"title":null,"doc_id":null}''),
               (''Content-Type'', ''application/json'')],
            req_body =
              ''{"job_id": 1, "task_id": 2, "status": "done", "theme": null, "file_path": "a.txt", "error": null, "error_summary": null, "timestamp": "1700000000", "doc_type": null, "inferred_date": null, "title": null, "doc_id": null}''\<rparr>\<close>
  by (simp add: send_callback_def callback_payload_def signed_body_def transmitted_body_def
        json_dumps_def dumps_value_def opt_json_def metadata_get_def summary_or_error_def
        quote_plain_def decimal_def decimal_nat.simps)

section \<open>One worker iteration: proofs\<close>



















text \<open>
  A forensic reply that parses to a non-empty array is not a dict: \<open>run_once\<close> takes no
  column from it, and \<open>_emit_outputs\<close> calls its \<open>get\<close>. The row ends flagged with the text of
  the \<open>AttributeError\<close>, although every statement outside the fences has returned.
\<close>

lemma forensic_array_reply_flags:
  "process_leased ascii_tab ''...'' sync_settings forensic_array
     = Flagged (no_get_attribute (RArray [RInt 1]))
   \<and> unfenced_steps_return ascii_tab sync_settings forensic_array"
  by (simp add: forensic_array_def enrichment_down_def sync_settings_def validate_record_def
        strip_def ascii_tab_def process_leased_def run_pipeline_def try_step_def
        outcome_of_def Let_def forensic_of_def llm_analyze_forensic_def add_document_def
        document_fields_of_def fields_bindable_def bindable_def is_object_def truthy_def
        emit_outputs_def unfenced_steps_return_def returns_def)




end
